theory Spec2Isabelle
  imports Complex_Main "HOL-Library.Char_ord" "HOL-Library.List_Lexorder"
begin

section \<open>Semantometrics: document distance and publication contribution\<close>

text \<open>
  A shallow embedding of \<^verbatim>\<open>contribution/dist_calculator.py\<close> and
  \<^verbatim>\<open>contribution/contrib_calculator.py\<close>.

  Conventions of the embedding.
  \<^item> Python floats are modelled as \<^typ>\<open>real\<close>: rounding, infinities and NaN are not
    modelled. Distances, means and the contribution are real numbers.
  \<^item> Python's \<^verbatim>\<open>None\<close> is \<^term>\<open>None\<close>: a distance that may be unavailable is a
    \<^typ>\<open>real option\<close>.
  \<^item> The code is read as Python 3: an ordering comparison or an arithmetic operation
    with \<^verbatim>\<open>None\<close> as an operand raises \<^verbatim>\<open>TypeError\<close>. Exceptions are values of
    the type \<open>py_error\<close>, returned as \<open>Inl\<close>.
  \<^item> A dictionary is a map; the dictionary of dictionaries
    \<^verbatim>\<open>calculated_distances\<close> is a map to maps. The inner dictionaries of different
    keys are taken to be different objects, as they are when the calculator starts from
    its default \<^verbatim>\<open>{}\<close> or from a dictionary read from a file.
  \<^item> Logging is left out: no result depends on it.
\<close>

subsection \<open>dist\_calculator.py\<close>

text \<open>
  The functions of NLTK, scikit-learn and the string type that the module calls are
  parameters of the model, collected in one record: \<^verbatim>\<open>str.lower\<close>,
  \<^verbatim>\<open>nltk.word_tokenize\<close>, \<^verbatim>\<open>PorterStemmer.stem\<close>, the English stop word list of
  scikit-learn, and the inverse document frequency weight of a term that occurs in
  \<open>df\<close> of \<open>n\<close> documents (scikit-learn's default is \<open>ln ((1 + n) / (1 + df)) + 1\<close>).
\<close>

record text_library =
  str_lower :: "string \<Rightarrow> string"
  word_tokenize :: "string \<Rightarrow> string list"
  stem :: "string \<Rightarrow> string"
  stop_words :: "string list"
  idf :: "nat \<Rightarrow> nat \<Rightarrow> real"

text \<open>\<^verbatim>\<open>string.punctuation\<close>, the 32 ASCII punctuation characters.\<close>

definition punctuation :: string where
  "punctuation =
     ''!'' @ [CHR 0x22] @ ''#$%&'' @ [CHR 0x27] @ ''()*+,-./:;<=>?@['' @ [CHR 0x5C] @
     '']^_'' @ [CHR 0x60] @ ''{|}~''"

text \<open>
  \<^verbatim>\<open>text.translate(remove_punctuation_map)\<close>: the map sends every punctuation
  character to \<^verbatim>\<open>None\<close>, so the translation deletes these characters.
\<close>

definition remove_punctuation :: "string \<Rightarrow> string" where
  "remove_punctuation text = filter (\<lambda>c. c \<notin> set punctuation) text"

definition stem_tokens :: "text_library \<Rightarrow> string list \<Rightarrow> string list" where
  "stem_tokens L tokens = map (stem L) tokens"

definition normalize :: "text_library \<Rightarrow> string \<Rightarrow> string list" where
  "normalize L text = stem_tokens L (word_tokenize L (remove_punctuation (str_lower L text)))"

text \<open>
  Modelled from the spec: \<^verbatim>\<open>vectorizer.fit_transform\<close> of scikit-learn's
  \<^verbatim>\<open>TfidfVectorizer(tokenizer=normalize, stop_words='english')\<close>, which is not part of
  the repository. Section 4.1 of the specification: each text is normalised on its
  own, the stop words are discarded, the vocabulary and the document frequencies are
  those of the documents passed in this call, a document's vector holds term frequency
  times inverse document frequency for every term of the vocabulary and is scaled to
  Euclidean length 1, and the vectorisation fails when the vocabulary is empty. The
  failure (\<^verbatim>\<open>ValueError\<close>) is the result \<^term>\<open>None\<close>; otherwise the result is the
  matrix with one row per document.
\<close>

text \<open>
  Modelled from the spec: the tokens of a document, normalised and without the stop
  words.
\<close>

definition analyze :: "text_library \<Rightarrow> string \<Rightarrow> string list" where
  "analyze L doc = filter (\<lambda>w. w \<notin> set (stop_words L)) (normalize L doc)"

text \<open>
  Modelled from the spec: the vocabulary of a call, the different tokens of its
  documents in sorted order.
\<close>

definition vocabulary :: "text_library \<Rightarrow> string list \<Rightarrow> string list" where
  "vocabulary L documents = sort (remdups (concat (map (analyze L) documents)))"

text \<open>
  Modelled from the spec: the number of documents of the call that contain a term.
\<close>

definition document_frequency :: "text_library \<Rightarrow> string list \<Rightarrow> string \<Rightarrow> nat" where
  "document_frequency L documents w = length (filter (\<lambda>d. w \<in> set (analyze L d)) documents)"

text \<open>
  Modelled from the spec: the scaling of a vector to Euclidean length 1; the zero vector
  is left as it is.
\<close>

definition l2_normalize :: "real list \<Rightarrow> real list" where
  "l2_normalize v =
     (let len = sqrt (sum_list (map (\<lambda>x. x * x) v))
      in if len = 0 then v else map (\<lambda>x. x / len) v)"

text \<open>
  Modelled from the spec: the vector of a document, term frequency times inverse
  document frequency for every term of the vocabulary, scaled to length 1.
\<close>

definition tfidf_row :: "text_library \<Rightarrow> string list \<Rightarrow> string \<Rightarrow> real list" where
  "tfidf_row L documents doc =
     l2_normalize
       (map (\<lambda>w. real (count_list (analyze L doc) w) *
                  idf L (length documents) (document_frequency L documents w))
            (vocabulary L documents))"

text \<open>
  Modelled from the spec: \<^verbatim>\<open>vectorizer.fit_transform(documents)\<close>, the failure on
  an empty vocabulary or the matrix of the documents' vectors.
\<close>

definition fit_transform :: "text_library \<Rightarrow> string list \<Rightarrow> real list list option" where
  "fit_transform L documents =
     (if vocabulary L documents = [] then None
      else Some (map (tfidf_row L documents) documents))"

text \<open>
  \<^verbatim>\<open>tfidf * tfidf.T\<close>: the product of a matrix with its transpose, whose entry
  \<open>(i, j)\<close> is the inner product of rows \<open>i\<close> and \<open>j\<close>.
\<close>

definition dot :: "real list \<Rightarrow> real list \<Rightarrow> real" where
  "dot u v = sum_list (map2 (\<lambda>x y. x * y) u v)"

definition times_transpose :: "real list list \<Rightarrow> real list list" where
  "times_transpose m = map (\<lambda>r. map (\<lambda>r'. dot r r') m) m"

text \<open>
  \<^verbatim>\<open>DistCalculator.document_distance\<close>. The result \<^term>\<open>None\<close> is Python's
  \<^verbatim>\<open>None\<close>. \<^verbatim>\<open>not d1 or not d2\<close> holds when one of the strings is empty. The
  matrix has two rows, so the entry \<open>[0][1]\<close> exists.
\<close>

definition document_distance :: "text_library \<Rightarrow> string \<Rightarrow> string \<Rightarrow> real option" where
  "document_distance L d1 d2 =
     (if d1 = [] \<or> d2 = [] then None
      else
        let documents = [d1, d2] in
        case fit_transform L documents of
          None \<Rightarrow> None
        | Some tfidf \<Rightarrow>
            let pairwise_similarity = times_transpose tfidf;
                distance = 1 - pairwise_similarity ! 0 ! 1
            in if distance < 0 \<or> distance > 1 then None else Some distance)"

subsection \<open>contrib\_calculator.py\<close>

text \<open>
  A value of the document map: a text, \<^verbatim>\<open>None\<close> or \<^verbatim>\<open>numpy.nan\<close>.
\<close>

datatype doc_value = DocText string | DocNone | DocNan

type_synonym 'i doc_map = "'i \<rightharpoonup> doc_value"

type_synonym 'i distance_map = "'i \<rightharpoonup> ('i \<rightharpoonup> real)"

text \<open>
  The mutable state of a \<^verbatim>\<open>ContribCalculator\<close>: the dictionary
  \<^verbatim>\<open>calculated_distances\<close>. The field \<open>engine_calls\<close> is instrumentation: the
  arguments of every call of \<^verbatim>\<open>self.dist_calculator.document_distance\<close>, in order,
  as a counting stub in place of the distance calculator would record them. The
  distance calculator itself is the parameter \<open>dc\<close> of the functions below.
\<close>

record 'i calculator =
  calculated_distances :: "'i distance_map"
  engine_calls :: "(string \<times> string) list"

type_synonym dist_calculator = "string \<Rightarrow> string \<Rightarrow> real option"

text \<open>
  The constructor: \<^verbatim>\<open>distances if distances is not None else {}\<close>. No call of the
  distance calculator has been made yet.
\<close>

definition init :: "'i distance_map option \<Rightarrow> 'i calculator" where
  "init distances =
     \<lparr>calculated_distances = (case distances of None \<Rightarrow> Map.empty | Some d \<Rightarrow> d),
      engine_calls = []\<rparr>"


definition get_document_text :: "'i doc_map \<Rightarrow> 'i \<Rightarrow> string" where
  "get_document_text doc_map idx =
     (case doc_map idx of
        None \<Rightarrow> ''''
      | Some doc_text \<Rightarrow>
          (case doc_text of DocNan \<Rightarrow> '''' | DocNone \<Rightarrow> '''' | DocText t \<Rightarrow> t))"

text \<open>
  \<^verbatim>\<open>_add_distance\<close>, on the dictionary. After the first two statements both keys
  are present, so the two reads of an inner dictionary find one.
\<close>

definition add_distance :: "'i \<Rightarrow> 'i \<Rightarrow> real \<Rightarrow> 'i distance_map \<Rightarrow> 'i distance_map" where
  "add_distance idx1 idx2 distance cd =
     (let cd1 = (if cd idx1 = None then cd(idx1 \<mapsto> Map.empty) else cd);
          cd2 = (if cd1 idx2 = None then cd1(idx2 \<mapsto> Map.empty) else cd1);
          cd3 = cd2(idx1 \<mapsto> (the (cd2 idx1))(idx2 \<mapsto> distance));
          cd4 = cd3(idx2 \<mapsto> (the (cd3 idx2))(idx1 \<mapsto> distance))
      in cd4)"

text \<open>
  The test \<^verbatim>\<open>pair[0] in d and pair[1] in d[pair[0]]\<close> followed by the read
  \<^verbatim>\<open>d[pair[0]][pair[1]]\<close>: the cached distance of the ordered pair, if there is one.
\<close>

definition cached :: "'i distance_map \<Rightarrow> 'i \<Rightarrow> 'i \<Rightarrow> real option" where
  "cached cd x y = (case cd x of None \<Rightarrow> None | Some inner \<Rightarrow> inner y)"

text \<open>The body of the loop of \<^verbatim>\<open>_pairwise_distances\<close>, for one pair.\<close>

definition pairwise_step ::
  "dist_calculator \<Rightarrow> 'i doc_map \<Rightarrow> 'i \<times> 'i \<Rightarrow> real list \<times> 'i calculator \<Rightarrow>
     real list \<times> 'i calculator" where
  "pairwise_step dc idx_text_map pair acc =
     (let distances = fst acc; self = snd acc in
      if fst pair = snd pair then (distances, self)
      else
        (case cached (calculated_distances self) (fst pair) (snd pair) of
           Some distance \<Rightarrow> (distances @ [distance], self)
         | None \<Rightarrow>
            (let d1 = get_document_text idx_text_map (fst pair);
                 d2 = get_document_text idx_text_map (snd pair);
                 called = self\<lparr>engine_calls := engine_calls self @ [(d1, d2)]\<rparr>
             in (case dc d1 d2 of
                   None \<Rightarrow> (distances, called)
                 | Some distance \<Rightarrow>
                     (distances @ [distance],
                      called\<lparr>calculated_distances :=
                        add_distance (fst pair) (snd pair) distance
                          (calculated_distances called)\<rparr>)))))"

fun pairwise_loop ::
  "dist_calculator \<Rightarrow> 'i doc_map \<Rightarrow> ('i \<times> 'i) list \<Rightarrow> real list \<times> 'i calculator \<Rightarrow>
     real list \<times> 'i calculator" where
  "pairwise_loop dc idx_text_map [] acc = acc"
| "pairwise_loop dc idx_text_map (pair # pairs) acc =
     pairwise_loop dc idx_text_map pairs (pairwise_step dc idx_text_map pair acc)"

text \<open>The list \<^verbatim>\<open>[[x, y] for x in indices_a for y in indices_b]\<close>.\<close>

definition index_pairs :: "'i list \<Rightarrow> 'i list \<Rightarrow> ('i \<times> 'i) list" where
  "index_pairs indices_a indices_b = concat (map (\<lambda>x. map (\<lambda>y. (x, y)) indices_b) indices_a)"

definition pairwise_distances ::
  "dist_calculator \<Rightarrow> 'i list \<Rightarrow> 'i list \<Rightarrow> 'i doc_map \<Rightarrow> 'i calculator \<Rightarrow>
     real list \<times> 'i calculator" where
  "pairwise_distances dc indices_a indices_b idx_text_map self =
     pairwise_loop dc idx_text_map (index_pairs indices_a indices_b) ([], self)"

definition mean_distance ::
  "dist_calculator \<Rightarrow> 'i list \<Rightarrow> 'i list \<Rightarrow> 'i doc_map \<Rightarrow> 'i calculator \<Rightarrow>
     real option \<times> 'i calculator" where
  "mean_distance dc indices_a indices_b docs self =
     (let r = pairwise_distances dc indices_a indices_b docs self;
          distances = fst r
      in if length distances = 0 then (None, snd r)
         else (Some (sum_list distances / real (length distances)), snd r))"

text \<open>
  Python 3 comparisons and arithmetic on a value that is a number or \<^verbatim>\<open>None\<close>:
  with \<^verbatim>\<open>None\<close> as an operand they raise \<^verbatim>\<open>TypeError\<close>. \<^verbatim>\<open>or\<close> evaluates its
  right operand only when the left one is false, so an exception of the right operand
  is raised only then.
\<close>

datatype py_error = TypeError | ZeroDivisionError

definition py_le :: "real option \<Rightarrow> real \<Rightarrow> py_error + bool" where
  "py_le v c = (case v of None \<Rightarrow> Inl TypeError | Some x \<Rightarrow> Inr (x \<le> c))"

definition py_lt :: "real option \<Rightarrow> real \<Rightarrow> py_error + bool" where
  "py_lt v c = (case v of None \<Rightarrow> Inl TypeError | Some x \<Rightarrow> Inr (x < c))"

definition py_gt :: "real option \<Rightarrow> real \<Rightarrow> py_error + bool" where
  "py_gt v c = (case v of None \<Rightarrow> Inl TypeError | Some x \<Rightarrow> Inr (x > c))"

definition py_or :: "py_error + bool \<Rightarrow> py_error + bool \<Rightarrow> py_error + bool" where
  "py_or p q = (case p of Inl e \<Rightarrow> Inl e | Inr True \<Rightarrow> Inr True | Inr False \<Rightarrow> q)"

definition py_div :: "real option \<Rightarrow> real option \<Rightarrow> py_error + real" where
  "py_div v w =
     (case (v, w) of
        (Some x, Some y) \<Rightarrow> if y = 0 then Inl ZeroDivisionError else Inr (x / y)
      | _ \<Rightarrow> Inl TypeError)"

definition py_mul :: "real option \<Rightarrow> real option \<Rightarrow> py_error + real" where
  "py_mul v w = (case (v, w) of (Some x, Some y) \<Rightarrow> Inr (x * y) | _ \<Rightarrow> Inl TypeError)"

text \<open>
  Lines 138 to 147 of \<^verbatim>\<open>contribution\<close>: the two adjustment parameters
  \<^verbatim>\<open>overline_a\<close> and \<^verbatim>\<open>overline_b\<close>, and the calculator after computing them.
\<close>

definition adjustment_parameters ::
  "dist_calculator \<Rightarrow> 'i list \<Rightarrow> 'i list \<Rightarrow> 'i doc_map \<Rightarrow> 'i calculator \<Rightarrow>
     real option \<times> real option \<times> 'i calculator" where
  "adjustment_parameters dc indices_a indices_b docs self =
     (if length indices_a = 1 \<or> length indices_b = 1 then (Some 1, Some 1, self)
      else
        let ra = mean_distance dc indices_a indices_a docs self;
            rb = mean_distance dc indices_b indices_b docs (snd ra)
        in (fst ra, fst rb, snd rb))"

text \<open>
  \<^verbatim>\<open>ContribCalculator.contribution\<close>. The result is the raised exception or the
  returned value (\<^term>\<open>None\<close> for \<^verbatim>\<open>None\<close>), together with the calculator as the
  call leaves it.
\<close>

definition contribution ::
  "dist_calculator \<Rightarrow> 'i list \<Rightarrow> 'i list \<Rightarrow> 'i doc_map \<Rightarrow> 'i calculator \<Rightarrow>
     (py_error + real option) \<times> 'i calculator" where
  "contribution dc indices_a indices_b docs self =
     (if length indices_a = 0 \<or> length indices_b = 0 then (Inr None, self)
      else
        let p = adjustment_parameters dc indices_a indices_b docs self;
            overline_a = fst p;
            overline_b = fst (snd p);
            self1 = snd (snd p)
        in (case py_or (py_le overline_a 0) (py_or (py_gt overline_a 1)
                   (py_or (py_le overline_b 0) (py_gt overline_b 1))) of
              Inl e \<Rightarrow> (Inl e, self1)
            | Inr True \<Rightarrow> (Inr None, self1)
            | Inr False \<Rightarrow>
               (let r = mean_distance dc indices_a indices_b docs self1;
                    mean_dist = fst r;
                    self2 = snd r
                in (case py_or (py_lt mean_dist 0) (py_gt mean_dist 1) of
                      Inl e \<Rightarrow> (Inl e, self2)
                    | Inr True \<Rightarrow> (Inr None, self2)
                    | Inr False \<Rightarrow>
                       (case py_div overline_b overline_a of
                          Inl e \<Rightarrow> (Inl e, self2)
                        | Inr adjust \<Rightarrow>
                           (case py_mul (Some adjust) mean_dist of
                              Inl e \<Rightarrow> (Inl e, self2)
                            | Inr c \<Rightarrow> (Inr (Some c), self2)))))))"

subsection \<open>Notions used in the statements\<close>

text \<open>
  The cache invariant of the specification: the entry of \<open>(a, b)\<close> and the entry of
  \<open>(b, a)\<close> are both absent or both present with the same value, and no pair
  \<open>(a, a)\<close> has an entry.
\<close>

definition symmetric_cache :: "'i distance_map \<Rightarrow> bool" where
  "symmetric_cache cd = (\<forall>a b. cached cd a b = cached cd b a)"



text \<open>Every entry of the first cache is an entry of the second, with the same value.\<close>

definition cache_extends :: "'i distance_map \<Rightarrow> 'i distance_map \<Rightarrow> bool" where
  "cache_extends cd cd' = (\<forall>a b v. cached cd a b = Some v \<longrightarrow> cached cd' a b = Some v)"

text \<open>A distance calculator that does not depend on the order of its two texts.\<close>

definition symmetric_engine :: "dist_calculator \<Rightarrow> bool" where
  "symmetric_engine dc = (\<forall>t u. dc t u = dc u t)"

text \<open>
  The distance the calculator has for an ordered pair of indices: the cached one, and
  without one the distance of the two texts. \<open>resolve\<close> is the contribution of a pair
  of the loop to the list of distances: nothing for a self-pair or an unavailable
  distance.
\<close>

definition pair_distance ::
  "dist_calculator \<Rightarrow> 'i doc_map \<Rightarrow> 'i distance_map \<Rightarrow> 'i \<Rightarrow> 'i \<Rightarrow> real option" where
  "pair_distance dc docs cd x y =
     (case cached cd x y of
        Some v \<Rightarrow> Some v
      | None \<Rightarrow> dc (get_document_text docs x) (get_document_text docs y))"

definition resolve ::
  "dist_calculator \<Rightarrow> 'i doc_map \<Rightarrow> 'i distance_map \<Rightarrow> 'i \<times> 'i \<Rightarrow> real option" where
  "resolve dc docs cd pair =
     (if fst pair = snd pair then None else pair_distance dc docs cd (fst pair) (snd pair))"

text \<open>
  A list of pairs is settled in a cache when each of its pairs that the loop does not
  skip has an entry or an unavailable distance: the loop over the list then adds
  nothing to the cache. A calculator is a quiet successor of another when it has the
  same cache and its additional calls of the distance calculator all returned
  \<^verbatim>\<open>None\<close>.
\<close>

definition settled ::
  "dist_calculator \<Rightarrow> 'i doc_map \<Rightarrow> 'i distance_map \<Rightarrow> ('i \<times> 'i) list \<Rightarrow> bool" where
  "settled dc docs cd pairs =
     (\<forall>p \<in> set pairs. fst p \<noteq> snd p \<and> cached cd (fst p) (snd p) = None \<longrightarrow>
        dc (get_document_text docs (fst p)) (get_document_text docs (snd p)) = None)"

definition quiet :: "dist_calculator \<Rightarrow> 'i calculator \<Rightarrow> 'i calculator \<Rightarrow> bool" where
  "quiet dc s t =
     (calculated_distances t = calculated_distances s \<and>
      (\<exists>new. engine_calls t = engine_calls s @ new \<and>
         (\<forall>c \<in> set new. dc (fst c) (snd c) = None)))"

text \<open>
  The result of \<^verbatim>\<open>contribution\<close> as a function of the distances of the pairs:
  \<open>mean_of\<close> is the mean of \<^verbatim>\<open>_mean_distance\<close>, \<open>adjustment_check\<close> the test of
  line 149, \<open>verdict\<close> lines 149 to 168 on the two adjustment parameters and the
  inter-group mean, and \<open>contribution_of\<close> the whole for a function \<open>r\<close> that gives
  every pair its contribution to a list of distances.
\<close>

definition mean_of :: "real list \<Rightarrow> real option" where
  "mean_of distances =
     (if distances = [] then None else Some (sum_list distances / real (length distances)))"

definition adjustment_check :: "real option \<Rightarrow> real option \<Rightarrow> py_error + bool" where
  "adjustment_check overline_a overline_b =
     py_or (py_le overline_a 0) (py_or (py_gt overline_a 1)
       (py_or (py_le overline_b 0) (py_gt overline_b 1)))"

definition verdict ::
  "real option \<Rightarrow> real option \<Rightarrow> real option \<Rightarrow> py_error + real option" where
  "verdict overline_a overline_b mean_dist =
     (case adjustment_check overline_a overline_b of
        Inl e \<Rightarrow> Inl e
      | Inr True \<Rightarrow> Inr None
      | Inr False \<Rightarrow>
         (case py_or (py_lt mean_dist 0) (py_gt mean_dist 1) of
            Inl e \<Rightarrow> Inl e
          | Inr True \<Rightarrow> Inr None
          | Inr False \<Rightarrow>
             (case py_div overline_b overline_a of
                Inl e \<Rightarrow> Inl e
              | Inr adjust \<Rightarrow>
                 (case py_mul (Some adjust) mean_dist of
                    Inl e \<Rightarrow> Inl e
                  | Inr c \<Rightarrow> Inr (Some c)))))"

definition contribution_of ::
  "('i \<times> 'i \<Rightarrow> real option) \<Rightarrow> 'i list \<Rightarrow> 'i list \<Rightarrow> py_error + real option" where
  "contribution_of r A B =
     (if length A = 0 \<or> length B = 0 then Inr None
      else
        verdict
          (if length A = 1 \<or> length B = 1 then Some 1
           else mean_of (List.map_filter r (index_pairs A A)))
          (if length A = 1 \<or> length B = 1 then Some 1
           else mean_of (List.map_filter r (index_pairs B B)))
          (mean_of (List.map_filter r (index_pairs A B))))"

text \<open>
  A small instance of the library functions, for running the model on concrete texts:
  a text is one token, no letter is changed, \<open>the\<close> is the only stop word, and the
  weights are scikit-learn's.
\<close>

definition example_library :: text_library where
  "example_library =
     \<lparr>str_lower = (\<lambda>s. s), word_tokenize = (\<lambda>s. [s]), stem = (\<lambda>w. w),
      stop_words = [''the''],
      idf = (\<lambda>n df. ln ((1 + real n) / (1 + real df)) + 1)\<rparr>"

definition example_docs :: "nat doc_map" where
  "example_docs = [1 \<mapsto> DocText ''cat'', 2 \<mapsto> DocText ''dog'', 3 \<mapsto> DocText ''cat'',
     4 \<mapsto> DocNone]"

section \<open>Lemmas\<close>

subsection \<open>The distance of two texts\<close>

lemma vocabulary_swap: "vocabulary L [d1, d2] = vocabulary L [d2, d1]"
proof -
  have "set (remdups (concat (map (analyze L) [d1, d2]))) =
        set (remdups (concat (map (analyze L) [d2, d1])))"
    by auto
  then show ?thesis
    unfolding vocabulary_def
    by (intro sorted_distinct_set_unique) (simp_all add: Un_commute)
qed

lemma document_frequency_swap:
  "document_frequency L [d1, d2] w = document_frequency L [d2, d1] w"
  by (simp add: document_frequency_def)

lemma tfidf_row_swap: "tfidf_row L [d1, d2] d = tfidf_row L [d2, d1] d"
  by (simp add: tfidf_row_def vocabulary_swap [of L d1 d2] document_frequency_swap [of L d1 d2])

lemma dot_commute: "dot u v = dot v u"
proof -
  have "map2 (\<lambda>x y. x * y) u v = map2 (\<lambda>x y. x * y) v u"
    by (induction u arbitrary: v) (auto simp: mult.commute split: list.splits  simp: zip_Cons1)
  then show ?thesis by (simp add: dot_def)
qed

lemma fit_transform_pair:
  "fit_transform L [d1, d2] =
     (if vocabulary L [d1, d2] = [] then None
      else Some [tfidf_row L [d1, d2] d1, tfidf_row L [d1, d2] d2])"
  by (simp add: fit_transform_def)

lemma document_distance_pair:
  "document_distance L d1 d2 =
     (if d1 = [] \<or> d2 = [] \<or> vocabulary L [d1, d2] = [] then None
      else let distance = 1 - dot (tfidf_row L [d1, d2] d1) (tfidf_row L [d1, d2] d2)
           in if distance < 0 \<or> distance > 1 then None else Some distance)"
  by (simp add: document_distance_def fit_transform_pair times_transpose_def Let_def)

lemma document_distance_commute: "document_distance L d1 d2 = document_distance L d2 d1"
proof -
  have "dot (tfidf_row L [d1, d2] d1) (tfidf_row L [d1, d2] d2) =
        dot (tfidf_row L [d2, d1] d2) (tfidf_row L [d2, d1] d1)"
    by (simp add: tfidf_row_swap [of L d1 d2] dot_commute)
  then show ?thesis
    by (simp add: document_distance_pair vocabulary_swap [of L d1 d2] disj_commute
        cong: if_cong)
qed

lemma document_distance_guard:
  "document_distance L d1 d2 = Some d \<Longrightarrow> 0 \<le> d \<and> d \<le> 1"
  by (auto simp: document_distance_def Let_def split: if_splits option.splits)

lemma symmetric_engine_document_distance: "symmetric_engine (document_distance L)"
  unfolding symmetric_engine_def using document_distance_commute by blast

subsection \<open>Comparisons and arithmetic of Python\<close>

lemma py_or_simps:
  "py_or (Inl e) q = Inl e"
  "py_or (Inr True) q = Inr True"
  "py_or (Inr False) q = q"
  "py_or (Inr p) (Inr r) = Inr (p \<or> r)"
  by (simp_all add: py_or_def split: bool.splits)

lemma py_compare_simps:
  "py_le (Some x) c = Inr (x \<le> c)" "py_le None c = Inl TypeError"
  "py_lt (Some x) c = Inr (x < c)" "py_lt None c = Inl TypeError"
  "py_gt (Some x) c = Inr (x > c)" "py_gt None c = Inl TypeError"
  by (simp_all add: py_le_def py_lt_def py_gt_def)

lemma py_arith_simps:
  "py_div (Some x) (Some y) = (if y = 0 then Inl ZeroDivisionError else Inr (x / y))"
  "py_mul (Some x) (Some y) = Inr (x * y)"
  by (simp_all add: py_div_def py_mul_def)

subsection \<open>One pair of the loop\<close>

lemma cached_add_distance:
  "cached (add_distance i j d cd) a b =
     (if (a = i \<and> b = j) \<or> (a = j \<and> b = i) then Some d else cached cd a b)"
  by (auto simp: cached_def add_distance_def Let_def split: option.splits)

lemma pairwise_step_self: "pairwise_step dc docs (x, x) acc = acc"
  by (simp add: pairwise_step_def)

lemma pairwise_step_hit:
  "x \<noteq> y \<Longrightarrow> cached (calculated_distances s) x y = Some v \<Longrightarrow>
   pairwise_step dc docs (x, y) (ds, s) = (ds @ [v], s)"
  by (simp add: pairwise_step_def)

lemma pairwise_step_unavailable:
  "x \<noteq> y \<Longrightarrow> cached (calculated_distances s) x y = None \<Longrightarrow>
   dc (get_document_text docs x) (get_document_text docs y) = None \<Longrightarrow>
   pairwise_step dc docs (x, y) (ds, s) =
     (ds, s\<lparr>engine_calls := engine_calls s @
        [(get_document_text docs x, get_document_text docs y)]\<rparr>)"
  by (simp add: pairwise_step_def Let_def)

lemma pairwise_step_computed:
  "x \<noteq> y \<Longrightarrow> cached (calculated_distances s) x y = None \<Longrightarrow>
   dc (get_document_text docs x) (get_document_text docs y) = Some d \<Longrightarrow>
   pairwise_step dc docs (x, y) (ds, s) =
     (ds @ [d],
      s\<lparr>engine_calls := engine_calls s @
          [(get_document_text docs x, get_document_text docs y)],
        calculated_distances := add_distance x y d (calculated_distances s)\<rparr>)"
  by (simp add: pairwise_step_def Let_def)

lemma cached_pairwise_step:
  "cached (calculated_distances (snd (pairwise_step dc docs (x, y) (ds, s)))) a b =
     (if x \<noteq> y \<and> cached (calculated_distances s) x y = None \<and>
         ((a = x \<and> b = y) \<or> (a = y \<and> b = x))
      then (case dc (get_document_text docs x) (get_document_text docs y) of
              None \<Rightarrow> cached (calculated_distances s) a b
            | Some d \<Rightarrow> Some d)
      else cached (calculated_distances s) a b)"
  by (simp add: pairwise_step_def Let_def cached_add_distance split: option.splits)

lemma fst_pairwise_step:
  "fst (pairwise_step dc docs p (ds, s)) =
     ds @ (case resolve dc docs (calculated_distances s) p of None \<Rightarrow> [] | Some v \<Rightarrow> [v])"
  by (simp add: pairwise_step_def resolve_def pair_distance_def Let_def split: option.splits)

lemma symmetric_cache_step:
  assumes "symmetric_cache (calculated_distances (snd acc))"
  shows "symmetric_cache (calculated_distances (snd (pairwise_step dc docs p acc)))"
proof -
  obtain x y ds s where p: "p = (x, y)" and acc: "acc = (ds, s)"
    by (cases p, cases acc) auto
  have sym: "cached (calculated_distances s) a b = cached (calculated_distances s) b a" for a b
    using assms by (simp add: symmetric_cache_def acc)
  have "cached (calculated_distances (snd (pairwise_step dc docs (x, y) (ds, s)))) a b =
        cached (calculated_distances (snd (pairwise_step dc docs (x, y) (ds, s)))) b a" for a b
  proof (cases "dc (get_document_text docs x) (get_document_text docs y)")
    case None
    then show ?thesis by (simp only: cached_pairwise_step option.case if_cancel) (rule sym)
  next
    case (Some d)
    then show ?thesis
      using sym [of a b]
      by (simp only: cached_pairwise_step option.case split: if_split) blast
  qed
  then show ?thesis by (simp add: symmetric_cache_def p acc)
qed



lemma provenance_step:
  assumes "cached (calculated_distances (snd (pairwise_step dc docs p acc))) a b = Some v"
  shows "cached (calculated_distances (snd acc)) a b = Some v \<or>
         dc (get_document_text docs a) (get_document_text docs b) = Some v \<or>
         dc (get_document_text docs b) (get_document_text docs a) = Some v"
proof -
  obtain x y ds s where p: "p = (x, y)" and acc: "acc = (ds, s)"
    by (cases p, cases acc) auto
  show ?thesis
    using assms unfolding p acc
    by (simp only: cached_pairwise_step snd_conv split: if_splits option.splits) blast+
qed

lemma pair_distance_step:
  assumes sym: "symmetric_cache (calculated_distances s)" and eng: "symmetric_engine dc"
  shows "pair_distance dc docs (calculated_distances (snd (pairwise_step dc docs (x, y) (ds, s)))) a b =
         pair_distance dc docs (calculated_distances s) a b"
proof -
  have yx: "cached (calculated_distances s) y x = cached (calculated_distances s) x y"
    using sym by (simp add: symmetric_cache_def)
  have e: "dc (get_document_text docs y) (get_document_text docs x) =
           dc (get_document_text docs x) (get_document_text docs y)"
    using eng by (simp add: symmetric_engine_def)
  show ?thesis
  proof (cases "dc (get_document_text docs x) (get_document_text docs y)")
    case None
    then show ?thesis
      by (simp only: pair_distance_def cached_pairwise_step option.case if_cancel)
  next
    case (Some d)
    show ?thesis
    proof (cases "x \<noteq> y \<and> cached (calculated_distances s) x y = None \<and>
         ((a = x \<and> b = y) \<or> (a = y \<and> b = x))")
      case False
      then show ?thesis
        by (simp only: pair_distance_def cached_pairwise_step if_False)
    next
      case True
      then have "cached (calculated_distances s) a b = None"
        using yx by auto
      moreover have "dc (get_document_text docs a) (get_document_text docs b) = Some d"
        using True Some e by auto
      moreover have "cached (calculated_distances (snd (pairwise_step dc docs (x, y) (ds, s)))) a b
          = Some d"
        using True Some by (subst cached_pairwise_step) simp
      ultimately show ?thesis
        by (simp only: pair_distance_def option.case)
    qed
  qed
qed

lemma cache_extends_step:
  assumes sym: "symmetric_cache (calculated_distances s)"
  shows "cache_extends (calculated_distances s)
           (calculated_distances (snd (pairwise_step dc docs (x, y) (ds, s))))"
proof -
  have yx: "cached (calculated_distances s) y x = cached (calculated_distances s) x y"
    using sym by (simp add: symmetric_cache_def)
  have "cached (calculated_distances (snd (pairwise_step dc docs (x, y) (ds, s)))) a b = Some v"
    if "cached (calculated_distances s) a b = Some v" for a b v
  proof (cases "x \<noteq> y \<and> cached (calculated_distances s) x y = None \<and>
         ((a = x \<and> b = y) \<or> (a = y \<and> b = x))")
    case False
    then show ?thesis using that by (simp only: cached_pairwise_step if_False)
  next
    case True
    then have "cached (calculated_distances s) a b = None" using yx by auto
    with that show ?thesis by simp
  qed
  then show ?thesis by (simp add: cache_extends_def)
qed

subsection \<open>The loop and the calls\<close>

lemma pairwise_loop_preserves:
  assumes step: "\<And>p acc. P (snd acc) \<Longrightarrow> P (snd (pairwise_step dc docs p acc))"
    and "P (snd acc)"
  shows "P (snd (pairwise_loop dc docs ps acc))"
  using assms(2)
proof (induction ps arbitrary: acc)
  case Nil
  then show ?case by simp
next
  case (Cons p ps)
  from Cons.prems have "P (snd (pairwise_step dc docs p acc))" by (rule step)
  then show ?case using Cons.IH by simp
qed




lemma snd_mean_distance:
  "snd (mean_distance dc A B docs s) = snd (pairwise_distances dc A B docs s)"
  by (simp add: mean_distance_def Let_def)

lemma snd_adjustment_parameters:
  "snd (snd (adjustment_parameters dc A B docs s)) =
     (if length A = 1 \<or> length B = 1 then s
      else snd (pairwise_distances dc B B docs (snd (pairwise_distances dc A A docs s))))"
  by (simp add: adjustment_parameters_def Let_def snd_mean_distance)

lemma snd_contribution_cases:
  "snd (contribution dc A B docs s) = s \<or>
   snd (contribution dc A B docs s) = snd (snd (adjustment_parameters dc A B docs s)) \<or>
   snd (contribution dc A B docs s) =
     snd (pairwise_distances dc A B docs (snd (snd (adjustment_parameters dc A B docs s))))"
  by (simp add: contribution_def Let_def snd_mean_distance split: sum.splits bool.splits)


lemma provenance_loop:
  assumes "cached (calculated_distances (snd (pairwise_loop dc docs ps acc))) a b = Some v"
  shows "cached (calculated_distances (snd acc)) a b = Some v \<or>
         dc (get_document_text docs a) (get_document_text docs b) = Some v \<or>
         dc (get_document_text docs b) (get_document_text docs a) = Some v"
  using assms
proof (induction ps arbitrary: acc)
  case Nil
  then show ?case by simp
next
  case (Cons p ps)
  from Cons.prems have "cached (calculated_distances
      (snd (pairwise_loop dc docs ps (pairwise_step dc docs p acc)))) a b = Some v"
    by simp
  from Cons.IH [OF this] show ?case
    using provenance_step [of dc docs p acc a b v] by blast
qed

lemma symmetric_cache_loop:
  "symmetric_cache (calculated_distances (snd acc)) \<Longrightarrow>
   symmetric_cache (calculated_distances (snd (pairwise_loop dc docs ps acc)))"
  by (rule pairwise_loop_preserves [where P = "\<lambda>s. symmetric_cache (calculated_distances s)"])
     (rule symmetric_cache_step)

lemma cache_extends_loop:
  assumes "symmetric_cache (calculated_distances (snd acc))"
  shows "cache_extends (calculated_distances (snd acc))
           (calculated_distances (snd (pairwise_loop dc docs ps acc)))"
  using assms
proof (induction ps arbitrary: acc)
  case Nil
  then show ?case by (simp add: cache_extends_def)
next
  case (Cons p ps)
  obtain x y ds s where p: "p = (x, y)" and acc: "acc = (ds, s)"
    by (cases p, cases acc) auto
  let ?acc1 = "pairwise_step dc docs p acc"
  have 1: "cache_extends (calculated_distances (snd acc)) (calculated_distances (snd ?acc1))"
    using Cons.prems cache_extends_step [of s dc docs x y ds] by (simp add: p acc)
  have "symmetric_cache (calculated_distances (snd ?acc1))"
    using Cons.prems by (rule symmetric_cache_step)
  then have 2: "cache_extends (calculated_distances (snd ?acc1))
      (calculated_distances (snd (pairwise_loop dc docs ps ?acc1)))"
    by (rule Cons.IH)
  from 1 2 show ?case by (simp add: cache_extends_def)
qed

lemma pair_distance_loop:
  assumes "symmetric_cache (calculated_distances (snd acc))" and eng: "symmetric_engine dc"
  shows "pair_distance dc docs (calculated_distances (snd (pairwise_loop dc docs ps acc))) a b =
         pair_distance dc docs (calculated_distances (snd acc)) a b"
  using assms(1)
proof (induction ps arbitrary: acc)
  case Nil
  then show ?case by simp
next
  case (Cons p ps)
  obtain x y ds s where p: "p = (x, y)" and acc: "acc = (ds, s)"
    by (cases p, cases acc) auto
  let ?acc1 = "pairwise_step dc docs p acc"
  have 1: "pair_distance dc docs (calculated_distances (snd ?acc1)) a b =
           pair_distance dc docs (calculated_distances (snd acc)) a b"
    using Cons.prems eng pair_distance_step [of s dc docs x y ds a b] by (simp add: p acc)
  have "symmetric_cache (calculated_distances (snd ?acc1))"
    using Cons.prems by (rule symmetric_cache_step)
  from Cons.IH [OF this] 1 show ?case by simp
qed

lemma resolve_cong:
  "(\<And>a b. pair_distance dc docs cd' a b = pair_distance dc docs cd a b) \<Longrightarrow>
   resolve dc docs cd' = resolve dc docs cd"
  by (rule ext) (simp add: resolve_def)

lemma fst_pairwise_loop:
  assumes "symmetric_cache (calculated_distances s)" and eng: "symmetric_engine dc"
  shows "fst (pairwise_loop dc docs ps (ds, s)) =
         ds @ List.map_filter (resolve dc docs (calculated_distances s)) ps"
  using assms(1)
proof (induction ps arbitrary: ds s)
  case Nil
  then show ?case by simp
next
  case (Cons p ps)
  obtain x y where p: "p = (x, y)" by (cases p)
  obtain ds1 s1 where step: "pairwise_step dc docs p (ds, s) = (ds1, s1)"
    by (cases "pairwise_step dc docs p (ds, s)")
  have ds1: "ds1 = ds @ (case resolve dc docs (calculated_distances s) p of
                            None \<Rightarrow> [] | Some v \<Rightarrow> [v])"
    using fst_pairwise_step [of dc docs p ds s] step by simp
  have sym1: "symmetric_cache (calculated_distances s1)"
    using symmetric_cache_step [of "(ds, s)" dc docs p] Cons.prems step by simp
  have "pair_distance dc docs (calculated_distances s1) a b =
        pair_distance dc docs (calculated_distances s) a b" for a b
    using pair_distance_step [OF Cons.prems eng, of docs x y ds a b] step p by simp
  then have res: "resolve dc docs (calculated_distances s1) = resolve dc docs (calculated_distances s)"
    by (rule resolve_cong)
  have "fst (pairwise_loop dc docs (p # ps) (ds, s)) = fst (pairwise_loop dc docs ps (ds1, s1))"
    by (simp add: step)
  also have "\<dots> = ds1 @ List.map_filter (resolve dc docs (calculated_distances s1)) ps"
    using sym1 by (rule Cons.IH)
  finally show ?case
    by (simp add: ds1 res split: option.splits)
qed

lemma count_list_index_pairs:
  "count_list (index_pairs A B) (a, b) = count_list A a * count_list B b"
proof -
  have row: "count_list (map (\<lambda>y. (x, y)) B) (a, b) = (if x = a then count_list B b else 0)" for x
    by (induction B) auto
  show ?thesis
    unfolding index_pairs_def
    by (induction A) (auto simp: row)
qed


subsection \<open>Where an entry of the cache comes from\<close>

text \<open>
  An entry of the cache after a call is an entry from before the call or a distance
  the distance calculator returned for the two texts, in one of the two orders.
\<close>

lemma provenance_pairwise_distances:
  assumes "cached (calculated_distances (snd (pairwise_distances dc A B docs s))) a b = Some v"
  shows "cached (calculated_distances s) a b = Some v \<or>
         dc (get_document_text docs a) (get_document_text docs b) = Some v \<or>
         dc (get_document_text docs b) (get_document_text docs a) = Some v"
  using provenance_loop [of dc docs "index_pairs A B" "([], s)" a b v] assms
  by (simp add: pairwise_distances_def)

lemma provenance_adjustment_parameters:
  assumes "cached (calculated_distances (snd (snd (adjustment_parameters dc A B docs s)))) a b = Some v"
  shows "cached (calculated_distances s) a b = Some v \<or>
         dc (get_document_text docs a) (get_document_text docs b) = Some v \<or>
         dc (get_document_text docs b) (get_document_text docs a) = Some v"
proof (cases "length A = 1 \<or> length B = 1")
  case True
  then show ?thesis using assms by (simp add: snd_adjustment_parameters)
next
  case False
  then have "cached (calculated_distances (snd (pairwise_distances dc B B docs
      (snd (pairwise_distances dc A A docs s))))) a b = Some v"
    using assms by (simp add: snd_adjustment_parameters)
  from provenance_pairwise_distances [OF this] show ?thesis
    using provenance_pairwise_distances [of dc A A docs s a b v] by blast
qed

lemma provenance_contribution:
  assumes "cached (calculated_distances (snd (contribution dc A B docs s))) a b = Some v"
  shows "cached (calculated_distances s) a b = Some v \<or>
         dc (get_document_text docs a) (get_document_text docs b) = Some v \<or>
         dc (get_document_text docs b) (get_document_text docs a) = Some v"
proof -
  let ?s1 = "snd (snd (adjustment_parameters dc A B docs s))"
  consider "snd (contribution dc A B docs s) = s"
    | "snd (contribution dc A B docs s) = ?s1"
    | "snd (contribution dc A B docs s) = snd (pairwise_distances dc A B docs ?s1)"
    using snd_contribution_cases [of dc A B docs s] by blast
  then show ?thesis
  proof cases
    case 1
    then show ?thesis using assms by simp
  next
    case 2
    then show ?thesis using assms provenance_adjustment_parameters [of dc A B docs s a b v] by simp
  next
    case 3
    then have "cached (calculated_distances (snd (pairwise_distances dc A B docs ?s1))) a b = Some v"
      using assms by simp
    from provenance_pairwise_distances [OF this] show ?thesis
      using provenance_adjustment_parameters [of dc A B docs s a b v] by blast
  qed
qed

subsection \<open>The returned list under symmetry\<close>

text \<open>
  With a symmetric cache and a symmetric distance calculator, the distance of a pair
  is the same at every moment of a call, and the list of distances is the list of
  these distances over the pairs of the loop.
\<close>

lemma fst_pairwise_distances:
  assumes "symmetric_cache (calculated_distances s)" and "symmetric_engine dc"
  shows "fst (pairwise_distances dc A B docs s) =
         List.map_filter (resolve dc docs (calculated_distances s)) (index_pairs A B)"
  using fst_pairwise_loop [OF assms, of docs "index_pairs A B" "[]"]
  by (simp add: pairwise_distances_def)

lemma fst_mean_distance:
  "fst (mean_distance dc A B docs s) =
     (let distances = fst (pairwise_distances dc A B docs s)
      in if distances = [] then None
         else Some (sum_list distances / real (length distances)))"
  by (simp add: mean_distance_def Let_def)

lemma index_pairs_replicate:
  "index_pairs (replicate k a) (replicate m b) = replicate (k * m) (a, b)"
  by (induction k) (simp_all add: index_pairs_def replicate_add map_replicate_const)

lemma index_pairs_single:
  "index_pairs (replicate k a @ [c]) [b] = replicate k (a, b) @ [(c, b)]"
  by (induction k) (simp_all add: index_pairs_def)

lemma map_filter_replicate:
  "f p = Some u \<Longrightarrow> List.map_filter f (replicate n p) = replicate n u"
  by (induction n) simp_all

lemma map_filter_append:
  "List.map_filter f (xs @ ys) = List.map_filter f xs @ List.map_filter f ys"
  by (simp add: List.map_filter_def)

lemma sum_list_replicate_real: "sum_list (replicate k (u::real)) = real k * u"
  by (induction k) (simp_all add: algebra_simps)

lemma pairwise_loop_append:
  "pairwise_loop dc docs (ps @ qs) acc = pairwise_loop dc docs qs (pairwise_loop dc docs ps acc)"
  by (induction ps arbitrary: acc) simp_all

lemma pairwise_loop_replicate:
  assumes "a \<noteq> b" and "pair_distance dc docs (calculated_distances s) a b = Some u"
  shows "fst (pairwise_loop dc docs (replicate n (a, b)) (ds, s)) = ds @ replicate n u \<and>
         pair_distance dc docs
           (calculated_distances (snd (pairwise_loop dc docs (replicate n (a, b)) (ds, s)))) a b =
           Some u \<and>
         (\<forall>x y. (x, y) \<noteq> (a, b) \<and> (x, y) \<noteq> (b, a) \<longrightarrow>
            cached (calculated_distances (snd (pairwise_loop dc docs (replicate n (a, b)) (ds, s))))
              x y = cached (calculated_distances s) x y)"
  using assms(2)
proof (induction n arbitrary: ds s)
  case 0
  then show ?case by simp
next
  case (Suc n)
  obtain ds1 s1 where step: "pairwise_step dc docs (a, b) (ds, s) = (ds1, s1)"
    by (cases "pairwise_step dc docs (a, b) (ds, s)")
  have res: "resolve dc docs (calculated_distances s) (a, b) = Some u"
    using assms(1) Suc.prems by (simp add: resolve_def)
  have ds1: "ds1 = ds @ [u]"
    using fst_pairwise_step [of dc docs "(a, b)" ds s] step res by simp
  have c1: "cached (calculated_distances s1) x y =
       (if a \<noteq> b \<and> cached (calculated_distances s) a b = None \<and>
         ((x = a \<and> y = b) \<or> (x = b \<and> y = a))
        then (case dc (get_document_text docs a) (get_document_text docs b) of
              None \<Rightarrow> cached (calculated_distances s) x y
            | Some d \<Rightarrow> Some d)
        else cached (calculated_distances s) x y)" for x y
    using cached_pairwise_step [of dc docs a b ds s x y] step by simp
  have pd1: "pair_distance dc docs (calculated_distances s1) a b = Some u"
  proof (cases "cached (calculated_distances s) a b")
    case None
    then have "dc (get_document_text docs a) (get_document_text docs b) = Some u"
      using Suc.prems by (simp add: pair_distance_def)
    then show ?thesis using None assms(1) by (simp add: pair_distance_def c1)
  next
    case (Some v)
    then show ?thesis using Suc.prems by (simp add: pair_distance_def c1)
  qed
  have other1: "cached (calculated_distances s1) x y = cached (calculated_distances s) x y"
    if "(x, y) \<noteq> (a, b) \<and> (x, y) \<noteq> (b, a)" for x y
    using that by (subst c1) auto
  note IH = Suc.IH [OF pd1, of ds1]
  show ?case
    using IH other1 by (simp add: step ds1 replicate_append_same)
qed

subsection \<open>Repeating a loop\<close>

text \<open>
  After a loop over a list of pairs the list is settled, it stays settled while the
  cache is extended, and a loop over a settled list leaves the cache as it is.
\<close>

lemma quiet_refl: "quiet dc s s"
  by (simp add: quiet_def)

lemma quiet_trans:
  assumes "quiet dc s t" and "quiet dc t u"
  shows "quiet dc s u"
proof -
  from assms(1) obtain n1 where 1: "calculated_distances t = calculated_distances s"
    "engine_calls t = engine_calls s @ n1" "\<forall>c \<in> set n1. dc (fst c) (snd c) = None"
    unfolding quiet_def by blast
  from assms(2) obtain n2 where 2: "calculated_distances u = calculated_distances t"
    "engine_calls u = engine_calls t @ n2" "\<forall>c \<in> set n2. dc (fst c) (snd c) = None"
    unfolding quiet_def by blast
  have "engine_calls u = engine_calls s @ (n1 @ n2)" using 1 2 by simp
  moreover have "\<forall>c \<in> set (n1 @ n2). dc (fst c) (snd c) = None" using 1 2 by auto
  ultimately show ?thesis using 1 2 unfolding quiet_def by metis
qed

lemma quiet_step:
  assumes "settled dc docs (calculated_distances s) [p]"
  shows "quiet dc s (snd (pairwise_step dc docs p (ds, s)))"
proof -
  obtain x y where p: "p = (x, y)" by (cases p)
  show ?thesis
  proof (cases "x = y")
    case True
    then show ?thesis by (simp add: p pairwise_step_self quiet_refl)
  next
    case ne: False
    show ?thesis
    proof (cases "cached (calculated_distances s) x y")
      case (Some v)
      then show ?thesis using ne pairwise_step_hit [of x y s v dc docs ds]
        by (simp add: p quiet_refl)
    next
      case None
      then have un: "dc (get_document_text docs x) (get_document_text docs y) = None"
        using assms ne by (simp add: settled_def p)
      have "pairwise_step dc docs (x, y) (ds, s) =
         (ds, s\<lparr>engine_calls := engine_calls s @
           [(get_document_text docs x, get_document_text docs y)]\<rparr>)"
        using pairwise_step_unavailable [of x y s dc docs ds] ne None un by simp
      then show ?thesis using un by (simp add: p quiet_def)
    qed
  qed
qed

lemma quiet_loop:
  assumes "settled dc docs (calculated_distances s) ps"
  shows "quiet dc s (snd (pairwise_loop dc docs ps (ds, s)))"
  using assms
proof (induction ps arbitrary: ds s)
  case Nil
  then show ?case by (simp add: quiet_refl)
next
  case (Cons p ps)
  obtain ds1 s1 where step: "pairwise_step dc docs p (ds, s) = (ds1, s1)"
    by (cases "pairwise_step dc docs p (ds, s)")
  have "settled dc docs (calculated_distances s) [p]"
    using Cons.prems by (simp add: settled_def)
  then have q1: "quiet dc s s1"
    using quiet_step [of dc docs s p ds] step by simp
  then have "calculated_distances s1 = calculated_distances s"
    by (simp add: quiet_def)
  then have "settled dc docs (calculated_distances s1) ps"
    using Cons.prems by (simp add: settled_def)
  then have "quiet dc s1 (snd (pairwise_loop dc docs ps (ds1, s1)))"
    by (rule Cons.IH)
  with q1 show ?case using quiet_trans by (simp add: step) blast
qed

lemma settled_extends:
  assumes "settled dc docs cd ps" and "cache_extends cd cd'"
  shows "settled dc docs cd' ps"
  unfolding settled_def
proof (intro ballI impI)
  fix p assume p: "p \<in> set ps" and h: "fst p \<noteq> snd p \<and> cached cd' (fst p) (snd p) = None"
  have "cached cd (fst p) (snd p) = None"
  proof (cases "cached cd (fst p) (snd p)")
    case None then show ?thesis .
  next
    case (Some v)
    then have "cached cd' (fst p) (snd p) = Some v"
      using assms(2) by (simp add: cache_extends_def)
    with h show ?thesis by simp
  qed
  with h p assms(1)
  show "dc (get_document_text docs (fst p)) (get_document_text docs (snd p)) = None"
    by (simp add: settled_def)
qed

lemma settled_after_loop:
  assumes "symmetric_cache (calculated_distances s)"
  shows "settled dc docs (calculated_distances (snd (pairwise_loop dc docs ps (ds, s)))) ps"
  using assms
proof (induction ps arbitrary: ds s)
  case Nil
  then show ?case by (simp add: settled_def)
next
  case (Cons p ps)
  obtain x y where p: "p = (x, y)" by (cases p)
  obtain ds1 s1 where step: "pairwise_step dc docs p (ds, s) = (ds1, s1)"
    by (cases "pairwise_step dc docs p (ds, s)")
  let ?s' = "snd (pairwise_loop dc docs ps (ds1, s1))"
  have sym1: "symmetric_cache (calculated_distances s1)"
    using symmetric_cache_step [of "(ds, s)" dc docs p] Cons.prems step by simp
  have rest: "settled dc docs (calculated_distances ?s') ps"
    using sym1 by (rule Cons.IH)
  have ext: "cache_extends (calculated_distances s1) (calculated_distances ?s')"
    using cache_extends_loop [of "(ds1, s1)" dc docs ps] sym1 by simp
  have head: "dc (get_document_text docs x) (get_document_text docs y) = None"
    if "x \<noteq> y" and none: "cached (calculated_distances ?s') x y = None"
  proof (cases "dc (get_document_text docs x) (get_document_text docs y)")
    case None then show ?thesis .
  next
    case (Some d)
    have c1: "cached (calculated_distances s1) x y =
       (if x \<noteq> y \<and> cached (calculated_distances s) x y = None \<and>
         ((x = x \<and> y = y) \<or> (x = y \<and> y = x))
        then (case dc (get_document_text docs x) (get_document_text docs y) of
              None \<Rightarrow> cached (calculated_distances s) x y
            | Some d \<Rightarrow> Some d)
        else cached (calculated_distances s) x y)"
      using cached_pairwise_step [of dc docs x y ds s x y] step p by simp
    have "\<exists>v. cached (calculated_distances s1) x y = Some v"
      using c1 Some that(1) by (cases "cached (calculated_distances s) x y") simp_all
    then obtain v where "cached (calculated_distances s1) x y = Some v" ..
    then have "cached (calculated_distances ?s') x y = Some v"
      using ext by (simp add: cache_extends_def)
    with none show ?thesis by simp
  qed
  have step': "pairwise_step dc docs (x, y) (ds, s) = (ds1, s1)"
    using step p by simp
  show ?case
    using rest head by (simp add: settled_def p step')
qed

subsection \<open>The calls of \<open>contribution\<close>\<close>

lemma fst_mean_distance_mean_of:
  "fst (mean_distance dc A B docs s) = mean_of (fst (pairwise_distances dc A B docs s))"
  by (simp add: mean_distance_def mean_of_def Let_def)

lemma symmetric_cache_pairwise_distances:
  "symmetric_cache (calculated_distances s) \<Longrightarrow>
   symmetric_cache (calculated_distances (snd (pairwise_distances dc A B docs s)))"
  by (simp add: pairwise_distances_def symmetric_cache_loop)

lemma resolve_pairwise_distances:
  assumes "symmetric_cache (calculated_distances s)" and "symmetric_engine dc"
  shows "resolve dc docs (calculated_distances (snd (pairwise_distances dc A B docs s))) =
         resolve dc docs (calculated_distances s)"
proof (rule resolve_cong)
  fix a b
  show "pair_distance dc docs (calculated_distances (snd (pairwise_distances dc A B docs s))) a b =
        pair_distance dc docs (calculated_distances s) a b"
    using pair_distance_loop [of "([], s)" dc docs "index_pairs A B" a b] assms
    by (simp add: pairwise_distances_def)
qed

lemma cache_extends_refl: "cache_extends cd cd"
  by (simp add: cache_extends_def)

lemma cache_extends_trans:
  "cache_extends cd1 cd2 \<Longrightarrow> cache_extends cd2 cd3 \<Longrightarrow> cache_extends cd1 cd3"
  by (simp add: cache_extends_def)

lemma cache_extends_pairwise_distances:
  "symmetric_cache (calculated_distances s) \<Longrightarrow>
   cache_extends (calculated_distances s)
     (calculated_distances (snd (pairwise_distances dc A B docs s)))"
  using cache_extends_loop [of "([], s)" dc docs "index_pairs A B"]
  by (simp add: pairwise_distances_def)

lemma settled_pairwise_distances:
  "symmetric_cache (calculated_distances s) \<Longrightarrow>
   settled dc docs (calculated_distances (snd (pairwise_distances dc A B docs s)))
     (index_pairs A B)"
  using settled_after_loop [of s dc docs "index_pairs A B" "[]"]
  by (simp add: pairwise_distances_def)

lemma quiet_pairwise_distances:
  "settled dc docs (calculated_distances s) (index_pairs A B) \<Longrightarrow>
   quiet dc s (snd (pairwise_distances dc A B docs s))"
  using quiet_loop [of dc docs s "index_pairs A B" "[]"]
  by (simp add: pairwise_distances_def)

lemma adjustment_parameters_value:
  assumes sym: "symmetric_cache (calculated_distances s)" and eng: "symmetric_engine dc"
  shows "fst (adjustment_parameters dc A B docs s) =
           (if length A = 1 \<or> length B = 1 then Some 1
            else mean_of (List.map_filter (resolve dc docs (calculated_distances s))
                   (index_pairs A A)))"
    and "fst (snd (adjustment_parameters dc A B docs s)) =
           (if length A = 1 \<or> length B = 1 then Some 1
            else mean_of (List.map_filter (resolve dc docs (calculated_distances s))
                   (index_pairs B B)))"
proof -
  let ?s1 = "snd (pairwise_distances dc A A docs s)"
  have 1: "symmetric_cache (calculated_distances ?s1)"
    using sym by (rule symmetric_cache_pairwise_distances)
  have r1: "resolve dc docs (calculated_distances ?s1) = resolve dc docs (calculated_distances s)"
    using sym eng by (rule resolve_pairwise_distances)
  show "fst (adjustment_parameters dc A B docs s) =
           (if length A = 1 \<or> length B = 1 then Some 1
            else mean_of (List.map_filter (resolve dc docs (calculated_distances s))
                   (index_pairs A A)))"
    by (simp add: adjustment_parameters_def Let_def fst_mean_distance_mean_of
        fst_pairwise_distances [OF sym eng])
  show "fst (snd (adjustment_parameters dc A B docs s)) =
           (if length A = 1 \<or> length B = 1 then Some 1
            else mean_of (List.map_filter (resolve dc docs (calculated_distances s))
                   (index_pairs B B)))"
    by (simp add: adjustment_parameters_def Let_def fst_mean_distance_mean_of snd_mean_distance
        fst_pairwise_distances [OF 1 eng] r1)
qed

lemma adjustment_parameters_state:
  assumes sym: "symmetric_cache (calculated_distances s)"
  shows "symmetric_cache (calculated_distances (snd (snd (adjustment_parameters dc A B docs s))))"
    and "cache_extends (calculated_distances s)
           (calculated_distances (snd (snd (adjustment_parameters dc A B docs s))))"
    and "\<not> (length A = 1 \<or> length B = 1) \<Longrightarrow>
         settled dc docs (calculated_distances (snd (snd (adjustment_parameters dc A B docs s))))
           (index_pairs A A)"
    and "\<not> (length A = 1 \<or> length B = 1) \<Longrightarrow>
         settled dc docs (calculated_distances (snd (snd (adjustment_parameters dc A B docs s))))
           (index_pairs B B)"
proof -
  let ?s1 = "snd (pairwise_distances dc A A docs s)"
  let ?s2 = "snd (pairwise_distances dc B B docs ?s1)"
  have 1: "symmetric_cache (calculated_distances ?s1)"
    using sym by (rule symmetric_cache_pairwise_distances)
  have 2: "symmetric_cache (calculated_distances ?s2)"
    using 1 by (rule symmetric_cache_pairwise_distances)
  have e1: "cache_extends (calculated_distances s) (calculated_distances ?s1)"
    using sym by (rule cache_extends_pairwise_distances)
  have e2: "cache_extends (calculated_distances ?s1) (calculated_distances ?s2)"
    using 1 by (rule cache_extends_pairwise_distances)
  show "symmetric_cache (calculated_distances (snd (snd (adjustment_parameters dc A B docs s))))"
    using sym 2 by (simp add: snd_adjustment_parameters)
  show "cache_extends (calculated_distances s)
           (calculated_distances (snd (snd (adjustment_parameters dc A B docs s))))"
    using cache_extends_trans [OF e1 e2] by (simp add: snd_adjustment_parameters cache_extends_refl)
  show "settled dc docs (calculated_distances (snd (snd (adjustment_parameters dc A B docs s))))
           (index_pairs A A)" if "\<not> (length A = 1 \<or> length B = 1)"
    using that settled_extends [OF settled_pairwise_distances [OF sym, of dc docs A A] e2]
    by (simp add: snd_adjustment_parameters)
  show "settled dc docs (calculated_distances (snd (snd (adjustment_parameters dc A B docs s))))
           (index_pairs B B)" if "\<not> (length A = 1 \<or> length B = 1)"
    using that settled_pairwise_distances [OF 1, of dc docs B B]
    by (simp add: snd_adjustment_parameters)
qed

lemma resolve_adjustment_parameters:
  assumes sym: "symmetric_cache (calculated_distances s)" and eng: "symmetric_engine dc"
  shows "resolve dc docs (calculated_distances (snd (snd (adjustment_parameters dc A B docs s)))) =
         resolve dc docs (calculated_distances s)"
proof -
  let ?s1 = "snd (pairwise_distances dc A A docs s)"
  have 1: "symmetric_cache (calculated_distances ?s1)"
    using sym by (rule symmetric_cache_pairwise_distances)
  show ?thesis
    using resolve_pairwise_distances [OF sym eng, of docs A A]
      resolve_pairwise_distances [OF 1 eng, of docs B B]
    by (simp add: snd_adjustment_parameters)
qed

lemma quiet_adjustment_parameters:
  assumes "length A = 1 \<or> length B = 1 \<or>
      settled dc docs (calculated_distances s) (index_pairs A A) \<and>
      settled dc docs (calculated_distances s) (index_pairs B B)"
  shows "quiet dc s (snd (snd (adjustment_parameters dc A B docs s)))"
proof (cases "length A = 1 \<or> length B = 1")
  case True
  then show ?thesis by (simp add: snd_adjustment_parameters quiet_refl)
next
  case False
  let ?s1 = "snd (pairwise_distances dc A A docs s)"
  let ?s2 = "snd (pairwise_distances dc B B docs ?s1)"
  from False assms have a: "settled dc docs (calculated_distances s) (index_pairs A A)"
    and b: "settled dc docs (calculated_distances s) (index_pairs B B)" by auto
  have q1: "quiet dc s ?s1" using a by (rule quiet_pairwise_distances)
  then have "calculated_distances ?s1 = calculated_distances s" by (simp add: quiet_def)
  then have "settled dc docs (calculated_distances ?s1) (index_pairs B B)" using b by simp
  then have "quiet dc ?s1 ?s2" by (rule quiet_pairwise_distances)
  with q1 have "quiet dc s ?s2" by (rule quiet_trans)
  with False show ?thesis by (simp add: snd_adjustment_parameters)
qed

lemma fst_contribution:
  "fst (contribution dc A B docs s) =
     (if length A = 0 \<or> length B = 0 then Inr None
      else verdict (fst (adjustment_parameters dc A B docs s))
             (fst (snd (adjustment_parameters dc A B docs s)))
             (fst (mean_distance dc A B docs (snd (snd (adjustment_parameters dc A B docs s))))))"
  by (simp add: contribution_def verdict_def adjustment_check_def Let_def
      split: sum.splits bool.splits)

lemma snd_contribution:
  "snd (contribution dc A B docs s) =
     (if length A = 0 \<or> length B = 0 then s
      else if adjustment_check (fst (adjustment_parameters dc A B docs s))
                (fst (snd (adjustment_parameters dc A B docs s))) = Inr False
           then snd (pairwise_distances dc A B docs (snd (snd (adjustment_parameters dc A B docs s))))
           else snd (snd (adjustment_parameters dc A B docs s)))"
  by (simp add: contribution_def adjustment_check_def Let_def snd_mean_distance
      split: sum.splits bool.splits)

lemma contribution_value:
  assumes sym: "symmetric_cache (calculated_distances s)" and eng: "symmetric_engine dc"
  shows "fst (contribution dc A B docs s) =
         contribution_of (resolve dc docs (calculated_distances s)) A B"
proof -
  let ?s1 = "snd (snd (adjustment_parameters dc A B docs s))"
  have 1: "symmetric_cache (calculated_distances ?s1)"
    using sym by (rule adjustment_parameters_state)
  have r1: "resolve dc docs (calculated_distances ?s1) = resolve dc docs (calculated_distances s)"
    using sym eng by (rule resolve_adjustment_parameters)
  show ?thesis
    by (simp add: fst_contribution contribution_of_def adjustment_parameters_value [OF sym eng]
        fst_mean_distance_mean_of fst_pairwise_distances [OF 1 eng] r1)
qed

lemma contribution_state:
  assumes sym: "symmetric_cache (calculated_distances s)"
  shows "symmetric_cache (calculated_distances (snd (contribution dc A B docs s)))"
proof -
  let ?s1 = "snd (snd (adjustment_parameters dc A B docs s))"
  have 1: "symmetric_cache (calculated_distances ?s1)"
    using sym by (rule adjustment_parameters_state)
  then have 2: "symmetric_cache (calculated_distances (snd (pairwise_distances dc A B docs ?s1)))"
    by (rule symmetric_cache_pairwise_distances)
  show ?thesis using sym 1 2 by (simp add: snd_contribution)
qed

lemma resolve_contribution:
  assumes sym: "symmetric_cache (calculated_distances s)" and eng: "symmetric_engine dc"
  shows "resolve dc docs (calculated_distances (snd (contribution dc A B docs s))) =
         resolve dc docs (calculated_distances s)"
proof -
  let ?s1 = "snd (snd (adjustment_parameters dc A B docs s))"
  have 1: "symmetric_cache (calculated_distances ?s1)"
    using sym by (rule adjustment_parameters_state)
  have r1: "resolve dc docs (calculated_distances ?s1) = resolve dc docs (calculated_distances s)"
    using sym eng by (rule resolve_adjustment_parameters)
  have r2: "resolve dc docs (calculated_distances (snd (pairwise_distances dc A B docs ?s1))) =
            resolve dc docs (calculated_distances s)"
    using resolve_pairwise_distances [OF 1 eng, of docs A B] r1 by simp
  show ?thesis using r1 r2 by (simp add: snd_contribution)
qed

lemma contribution_replay:
  assumes sym: "symmetric_cache (calculated_distances s)" and eng: "symmetric_engine dc"
  shows "quiet dc (snd (contribution dc A B docs s))
           (snd (contribution dc A B docs (snd (contribution dc A B docs s))))"
proof (cases "length A = 0 \<or> length B = 0")
  case True
  then show ?thesis by (simp add: snd_contribution quiet_refl)
next
  case nonempty: False
  let ?P = "adjustment_parameters dc A B docs s"
  let ?sab = "snd (snd ?P)"
  let ?s1 = "snd (contribution dc A B docs s)"
  let ?P' = "adjustment_parameters dc A B docs ?s1"
  let ?tab = "snd (snd ?P')"
  let ?R = "resolve dc docs (calculated_distances s)"
  have symab: "symmetric_cache (calculated_distances ?sab)"
    using sym by (rule adjustment_parameters_state)
  have sym1: "symmetric_cache (calculated_distances ?s1)"
    using sym by (rule contribution_state)
  have res1: "resolve dc docs (calculated_distances ?s1) = ?R"
    using sym eng by (rule resolve_contribution)
  have same_a: "fst ?P' = fst ?P" and same_b: "fst (snd ?P') = fst (snd ?P)"
    by (simp_all add: adjustment_parameters_value [OF sym eng]
        adjustment_parameters_value [OF sym1 eng] res1)
  have ext: "cache_extends (calculated_distances ?sab) (calculated_distances ?s1)"
    using cache_extends_pairwise_distances [OF symab, of dc A B docs] nonempty
    by (simp add: snd_contribution cache_extends_refl)
  have "length A = 1 \<or> length B = 1 \<or>
      settled dc docs (calculated_distances ?s1) (index_pairs A A) \<and>
      settled dc docs (calculated_distances ?s1) (index_pairs B B)"
    using adjustment_parameters_state(3,4) [OF sym, of A B dc docs] settled_extends [OF _ ext]
    by blast
  then have q1: "quiet dc ?s1 ?tab"
    by (rule quiet_adjustment_parameters)
  show ?thesis
  proof (cases "adjustment_check (fst ?P) (fst (snd ?P)) = Inr False")
    case False
    then show ?thesis
      using q1 nonempty by (simp add: snd_contribution [of dc A B docs ?s1] same_a same_b)
  next
    case True
    then have s1: "?s1 = snd (pairwise_distances dc A B docs ?sab)"
      using nonempty by (simp add: snd_contribution)
    have "settled dc docs (calculated_distances ?s1) (index_pairs A B)"
      using settled_pairwise_distances [OF symab, of dc docs A B] s1 by simp
    moreover have "calculated_distances ?tab = calculated_distances ?s1"
      using q1 by (simp add: quiet_def)
    ultimately have "settled dc docs (calculated_distances ?tab) (index_pairs A B)"
      by simp
    then have "quiet dc ?tab (snd (pairwise_distances dc A B docs ?tab))"
      by (rule quiet_pairwise_distances)
    with q1 have "quiet dc ?s1 (snd (pairwise_distances dc A B docs ?tab))"
      by (rule quiet_trans)
    then show ?thesis
      using True nonempty by (simp add: snd_contribution [of dc A B docs ?s1] same_a same_b)
  qed
qed

lemma cache_extends_contribution:
  assumes "symmetric_cache (calculated_distances s)"
  shows "cache_extends (calculated_distances s)
           (calculated_distances (snd (contribution dc A B docs s)))"
proof -
  let ?s1 = "snd (snd (adjustment_parameters dc A B docs s))"
  have 1: "symmetric_cache (calculated_distances ?s1)"
    and e1: "cache_extends (calculated_distances s) (calculated_distances ?s1)"
    using adjustment_parameters_state(1,2) [OF assms, of dc A B docs] by simp_all
  have e2: "cache_extends (calculated_distances s)
      (calculated_distances (snd (pairwise_distances dc A B docs ?s1)))"
    using e1 cache_extends_pairwise_distances [OF 1, of dc A B docs]
    by (rule cache_extends_trans)
  show ?thesis
    using e1 e2 by (simp add: snd_contribution cache_extends_refl)
qed

lemma quiet_drop:
  assumes "quiet dc s t" and "c \<in> set (drop (length (engine_calls s)) (engine_calls t))"
  shows "dc (fst c) (snd c) = None"
proof -
  from assms(1) obtain new where "engine_calls t = engine_calls s @ new"
    and "\<forall>c \<in> set new. dc (fst c) (snd c) = None"
    unfolding quiet_def by blast
  with assms(2) show ?thesis by simp
qed

subsection \<open>Concrete runs\<close>

text \<open>
  The distances of the example library: two different one-word texts are at distance 1,
  two equal ones at distance 0, and a text of stop words alone has no distance to itself.
\<close>

lemma example_analyze:
  "analyze example_library ''cat'' = [''cat'']"
  "analyze example_library ''dog'' = [''dog'']"
  "analyze example_library ''the'' = []"
  by (simp_all add: analyze_def normalize_def stem_tokens_def remove_punctuation_def
      punctuation_def example_library_def)

lemma example_idf: "idf example_library n df = ln ((1 + real n) / (1 + real df)) + 1"
  by (simp add: example_library_def)

lemma example_distance_cat_dog: "document_distance example_library ''cat'' ''dog'' = Some 1"
  by (simp add: document_distance_pair vocabulary_def example_analyze tfidf_row_def
      document_frequency_def l2_normalize_def dot_def Let_def)

lemma example_distance_dog_cat: "document_distance example_library ''dog'' ''cat'' = Some 1"
  by (simp add: document_distance_commute [of example_library "''dog''"] example_distance_cat_dog)

lemma example_distance_cat_cat: "document_distance example_library ''cat'' ''cat'' = Some 0"
  by (simp add: document_distance_pair vocabulary_def example_analyze tfidf_row_def
      document_frequency_def l2_normalize_def dot_def Let_def example_idf)

lemma example_distance_the: "document_distance example_library ''the'' ''the'' = None"
  by (simp add: document_distance_pair vocabulary_def example_analyze)

lemma example_distance_empty:
  "document_distance L [] d = None" "document_distance L d [] = None"
  by (simp_all add: document_distance_def)

lemmas run_defs = mean_distance_def pairwise_distances_def index_pairs_def pairwise_step_def
  contribution_def adjustment_parameters_def cached_def get_document_text_def add_distance_def
  py_le_def py_lt_def py_gt_def py_or_def py_div_def py_mul_def init_def example_docs_def
  Let_def

lemmas example_distances = example_distance_cat_dog example_distance_dog_cat
  example_distance_cat_cat example_distance_empty

lemma symmetric_cache_empty: "symmetric_cache Map.empty"
  by (simp add: symmetric_cache_def cached_def)

lemma symmetric_cache_one_pair:
  "x \<noteq> y \<Longrightarrow> symmetric_cache [x \<mapsto> [y \<mapsto> v], y \<mapsto> [x \<mapsto> v]]"
  by (auto simp: symmetric_cache_def cached_def)

section \<open>The claims\<close>

subsection \<open>Unavailable means in \<open>contribution\<close>\<close>

text \<open>
  C1. The claim: \<^verbatim>\<open>contribution\<close> never raises for the shape of its data, also when
  a mean distance is unavailable. The code compares the mean with a number before any
  test for \<^verbatim>\<open>None\<close> (line 158), so an unavailable mean raises \<^verbatim>\<open>TypeError\<close>.
  With two singleton groups and a document map without texts, the only distance is
  unavailable, the inter-group mean is \<^verbatim>\<open>None\<close>, and the call raises.
\<close>

theorem contribution_raises_on_unavailable_mean:
  "contribution (document_distance L) [''1''] [''2''] Map.empty (init None) =
     (Inl TypeError, \<lparr>calculated_distances = Map.empty, engine_calls = [('''', '''')]\<rparr>)"
  by (simp add: run_defs example_distance_empty)

text \<open>
  C2. The claim: an unavailable adjustment parameter makes \<^verbatim>\<open>contribution\<close>
  return \<^verbatim>\<open>None\<close>. The comparison of line 149 raises \<^verbatim>\<open>TypeError\<close> instead:
  with two groups of two documents without texts, where \<^verbatim>\<open>overline_a\<close> is
  unavailable, and with a first group at mean distance 1 and a second group without
  texts, where \<^verbatim>\<open>overline_a\<close> is valid and \<^verbatim>\<open>overline_b\<close> is unavailable.
\<close>

theorem contribution_raises_on_unavailable_adjustment:
  "fst (contribution (document_distance L) [''1'', ''2''] [''3'', ''4''] Map.empty (init None)) =
     Inl TypeError \<and>
   fst (adjustment_parameters (document_distance example_library) [1, 2] [4, 5] example_docs
         (init None)) = Some 1 \<and>
   fst (snd (adjustment_parameters (document_distance example_library) [1, 2] [4, 5] example_docs
         (init None))) = None \<and>
   fst (contribution (document_distance example_library) [1, 2] [4, 5] example_docs (init None)) =
     Inl TypeError"
  by (simp add: run_defs example_distances)

text \<open>
  What the code does when both adjustment parameters are numbers: outside of
  \<open>(0, 1]\<close> the result is \<^verbatim>\<open>None\<close>.
\<close>

lemma invalid_adjustment_parameter:
  assumes "length indices_a \<noteq> 0" "length indices_b \<noteq> 0"
    and "adjustment_parameters dc indices_a indices_b docs self = (Some a, Some b, self1)"
    and "a \<le> 0 \<or> a > 1 \<or> b \<le> 0 \<or> b > 1"
  shows "contribution dc indices_a indices_b docs self = (Inr None, self1)"
  using assms by (simp add: contribution_def Let_def py_or_simps py_compare_simps)

text \<open>
  \<^verbatim>\<open>contribution\<close> raises nothing but this \<^verbatim>\<open>TypeError\<close>, and only when one
  of the three means it compares is \<^verbatim>\<open>None\<close>: the division of line 163 is
  reached with a positive \<^verbatim>\<open>overline_a\<close> only.
\<close>

lemma verdict_error:
  assumes "verdict oa ob m = Inl e"
  shows "e = TypeError \<and> (oa = None \<or> ob = None \<or> m = None)"
  using assms
  by (cases oa; cases ob; cases m)
     (auto simp: verdict_def adjustment_check_def py_or_def py_le_def py_lt_def py_gt_def
        py_div_def py_mul_def split: sum.splits bool.splits if_splits)

lemma contribution_error:
  assumes "fst (contribution dc A B docs s) = Inl e"
  shows "e = TypeError"
  using assms verdict_error by (auto simp: fst_contribution split: if_splits)

subsection \<open>Singleton groups\<close>

text \<open>
  C3, as amended. For singleton groups \<open>[x]\<close> and \<open>[y]\<close>, \<^verbatim>\<open>contribution\<close> sets
  both adjustment parameters to 1 and leaves the calculator as it is, so no
  intra-group distance is computed. When \<^verbatim>\<open>mean_distance([x], [y], docs)\<close> is a
  number \<open>m\<close>, the result is exactly \<open>m\<close> if \<open>m\<close> is in \<open>[0, 1]\<close> and \<^verbatim>\<open>None\<close>
  otherwise, and the calculator is the one \<^verbatim>\<open>mean_distance\<close> leaves.
\<close>

theorem singleton_groups:
  "adjustment_parameters dc [x] [y] docs self = (Some 1, Some 1, self) \<and>
   (mean_distance dc [x] [y] docs self = (Some m, self') \<longrightarrow>
      contribution dc [x] [y] docs self =
        (if 0 \<le> m \<and> m \<le> 1 then Inr (Some m) else Inr None, self'))"
  by (auto simp: contribution_def adjustment_parameters_def py_le_def py_lt_def py_gt_def
      py_or_def py_div_def py_mul_def Let_def)

theorem singleton_groups_witness:
  "mean_distance (document_distance example_library) [1] [2] example_docs (init None) =
     (Some 1, \<lparr>calculated_distances = [1 \<mapsto> [2 \<mapsto> 1], 2 \<mapsto> [1 \<mapsto> 1]],
                engine_calls = [(''cat'', ''dog'')]\<rparr>) \<and>
   contribution (document_distance example_library) [1] [2] example_docs (init None) =
     (Inr (Some 1), \<lparr>calculated_distances = [1 \<mapsto> [2 \<mapsto> 1], 2 \<mapsto> [1 \<mapsto> 1]],
                engine_calls = [(''cat'', ''dog'')]\<rparr>)"
proof -
  have m: "mean_distance (document_distance example_library) [1] [2] example_docs (init None) =
     (Some 1, \<lparr>calculated_distances = [1 \<mapsto> [2 \<mapsto> 1], 2 \<mapsto> [1 \<mapsto> 1]],
                engine_calls = [(''cat'', ''dog'')]\<rparr>)"
    by (simp add: run_defs example_distances)
  show ?thesis
    using m singleton_groups [of "document_distance example_library" 1 2 example_docs
        "init None" 1 "\<lparr>calculated_distances = [1 \<mapsto> [2 \<mapsto> 1], 2 \<mapsto> [1 \<mapsto> 1]],
                engine_calls = [(''cat'', ''dog'')]\<rparr>"]
    by simp
qed

text \<open>
  The claim as stated fails: a distance outside of \<open>[0, 1]\<close> that the caller put into
  the cache is the mean distance of the two singletons, and \<^verbatim>\<open>contribution\<close>
  returns \<^verbatim>\<open>None\<close>, by the test of line 158.
\<close>

theorem singleton_groups_counterexample:
  "fst (mean_distance (document_distance example_library) [1] [2] example_docs
         (init (Some [1 \<mapsto> [2 \<mapsto> 2], 2 \<mapsto> [1 \<mapsto> 2]]))) = Some 2 \<and>
   fst (contribution (document_distance example_library) [1] [2] example_docs
         (init (Some [1 \<mapsto> [2 \<mapsto> 2], 2 \<mapsto> [1 \<mapsto> 2]]))) = Inr None"
  by (simp add: run_defs)

subsection \<open>Range and symmetry of the distance\<close>

text \<open>
  C4. Whenever \<^verbatim>\<open>document_distance\<close> returns a distance and not \<^verbatim>\<open>None\<close>, the
  distance lies in \<open>[0, 1]\<close>. This is the test of line 78, whatever the library
  functions compute.
\<close>

theorem document_distance_in_unit_interval:
  "document_distance L d1 d2 = Some d \<Longrightarrow> 0 \<le> d \<and> d \<le> 1"
  by (auto simp: document_distance_def Let_def split: if_splits option.splits)

theorem document_distance_in_unit_interval_witness:
  "document_distance example_library ''cat'' ''dog'' = Some 1 \<and> (0::real) \<le> 1 \<and> (1::real) \<le> 1"
  using document_distance_in_unit_interval [of example_library "''cat''" "''dog''" 1]
    example_distance_cat_dog by simp


subsection \<open>Self-pairs\<close>

text \<open>
  C6. For every index \<open>x\<close> and every document map,
  \<^verbatim>\<open>pairwise_distances([x], [x], docs)\<close> is the empty list: the only candidate pair is
  a self-pair, which is skipped. The calculator is left as it was, and
  \<^verbatim>\<open>mean_distance([x], [x], docs)\<close> is unavailable (\<^verbatim>\<open>None\<close>).
\<close>

theorem self_pair_excluded:
  "pairwise_distances dc [x] [x] docs self = ([], self) \<and>
   mean_distance dc [x] [x] docs self = (None, self)"
  by (simp add: mean_distance_def pairwise_distances_def index_pairs_def pairwise_step_def)

subsection \<open>Reuse of cached distances\<close>

text \<open>
  C7. Let \<open>a\<close> and \<open>b\<close> be different indices.
  \<^item> If the cache has the distance \<open>v\<close> for \<open>(a, b)\<close>, the loop appends \<open>v\<close> for this
    pair and leaves the calculator as it is, whatever the distance calculator and the
    document map are: \<^verbatim>\<open>document_distance\<close> is not called (no call is recorded) and
    no text is read.
  \<^item> If the cache has no distance for the pair and \<^verbatim>\<open>document_distance\<close> returns
    \<open>d\<close>, the loop appends \<open>d\<close> and the cache has \<open>d\<close> for the pair afterwards.
  \<^item> An entry of a symmetric cache is still there, with the same value, after every
    call of \<^verbatim>\<open>_pairwise_distances\<close> and \<^verbatim>\<open>contribution\<close>.
  \<^item> Hence, with a symmetric cache and a symmetric distance calculator, a second call
    of \<^verbatim>\<open>contribution\<close> with the same arguments on the calculator the first call
    left returns the same result (computed from the same distances), leaves the cache
    as it is, and calls the distance calculator only for pairs whose distance is
    unavailable.
\<close>

theorem cached_distance_reused:
  assumes "a \<noteq> b"
  shows
    "(cached (calculated_distances self) a b = Some v \<longrightarrow>
        pairwise_step dc docs (a, b) (distances, self) = (distances @ [v], self) \<and>
        pairwise_distances dc [a] [b] docs self = ([v], self)) \<and>
     (cached (calculated_distances self) a b = None \<and>
      dc (get_document_text docs a) (get_document_text docs b) = Some d \<longrightarrow>
        fst (pairwise_step dc docs (a, b) (distances, self)) = distances @ [d] \<and>
        cached (calculated_distances (snd (pairwise_step dc docs (a, b) (distances, self)))) a b =
          Some d) \<and>
     (symmetric_cache (calculated_distances self) \<and>
      cached (calculated_distances self) a b = Some v \<longrightarrow>
        cached (calculated_distances (snd (pairwise_distances dc A B docs self))) a b = Some v \<and>
        cached (calculated_distances (snd (contribution dc A B docs self))) a b = Some v) \<and>
     (symmetric_cache (calculated_distances self) \<and> symmetric_engine dc \<longrightarrow>
        fst (contribution dc A B docs (snd (contribution dc A B docs self))) =
          fst (contribution dc A B docs self) \<and>
        calculated_distances (snd (contribution dc A B docs (snd (contribution dc A B docs self)))) =
          calculated_distances (snd (contribution dc A B docs self)) \<and>
        (\<forall>c \<in> set (drop (length (engine_calls (snd (contribution dc A B docs self))))
                 (engine_calls (snd (contribution dc A B docs
                    (snd (contribution dc A B docs self)))))).
           dc (fst c) (snd c) = None))"
proof (intro conjI impI ballI)
  assume hit: "cached (calculated_distances self) a b = Some v"
  from assms hit
  show "pairwise_step dc docs (a, b) (distances, self) = (distances @ [v], self)"
    by (rule pairwise_step_hit)
  from assms hit show "pairwise_distances dc [a] [b] docs self = ([v], self)"
    by (simp add: pairwise_distances_def index_pairs_def pairwise_step_hit)
next
  assume miss: "cached (calculated_distances self) a b = None \<and>
      dc (get_document_text docs a) (get_document_text docs b) = Some d"
  then have eq: "pairwise_step dc docs (a, b) (distances, self) =
     (distances @ [d],
      self\<lparr>engine_calls := engine_calls self @
          [(get_document_text docs a, get_document_text docs b)],
        calculated_distances := add_distance a b d (calculated_distances self)\<rparr>)"
    using assms pairwise_step_computed [of a b self dc docs d distances] by simp
  show "fst (pairwise_step dc docs (a, b) (distances, self)) = distances @ [d]"
    by (simp add: eq)
  show "cached (calculated_distances (snd (pairwise_step dc docs (a, b) (distances, self)))) a b =
          Some d"
    by (simp add: eq cached_add_distance)
next
  assume h: "symmetric_cache (calculated_distances self) \<and>
      cached (calculated_distances self) a b = Some v"
  then show "cached (calculated_distances (snd (pairwise_distances dc A B docs self))) a b = Some v"
    using cache_extends_pairwise_distances [of self dc A B docs]
    by (simp add: cache_extends_def)
  from h show "cached (calculated_distances (snd (contribution dc A B docs self))) a b = Some v"
    using cache_extends_contribution [of self dc A B docs]
    by (simp add: cache_extends_def)
next
  assume h: "symmetric_cache (calculated_distances self) \<and> symmetric_engine dc"
  then have sym: "symmetric_cache (calculated_distances self)" and eng: "symmetric_engine dc"
    by simp_all
  let ?s1 = "snd (contribution dc A B docs self)"
  have sym1: "symmetric_cache (calculated_distances ?s1)"
    using sym by (rule contribution_state)
  show "fst (contribution dc A B docs ?s1) = fst (contribution dc A B docs self)"
    by (simp add: contribution_value [OF sym eng] contribution_value [OF sym1 eng]
        resolve_contribution [OF sym eng])
  have q: "quiet dc ?s1 (snd (contribution dc A B docs ?s1))"
    using sym eng by (rule contribution_replay)
  then show "calculated_distances (snd (contribution dc A B docs ?s1)) = calculated_distances ?s1"
    by (simp add: quiet_def)
  fix c
  assume "c \<in> set (drop (length (engine_calls ?s1))
      (engine_calls (snd (contribution dc A B docs ?s1))))"
  with q show "dc (fst c) (snd c) = None" by (rule quiet_drop)
qed

theorem cached_distance_reused_witness:
  "(1::nat) \<noteq> 2 \<and>
   cached (calculated_distances (init (Some [1 \<mapsto> [2 \<mapsto> 1 / 2], 2 \<mapsto> [1 \<mapsto> 1 / 2]]))) 1 2 =
     Some (1 / 2) \<and>
   symmetric_cache (calculated_distances
     (init (Some [1 \<mapsto> [2 \<mapsto> 1 / 2], (2::nat) \<mapsto> [(1::nat) \<mapsto> 1 / 2]]))) \<and>
   pairwise_distances (document_distance example_library) [1] [2] example_docs
     (init (Some [1 \<mapsto> [2 \<mapsto> 1 / 2], 2 \<mapsto> [1 \<mapsto> 1 / 2]])) =
     ([1 / 2], init (Some [1 \<mapsto> [2 \<mapsto> 1 / 2], 2 \<mapsto> [1 \<mapsto> 1 / 2]])) \<and>
   cached (calculated_distances (snd (contribution (document_distance example_library)
     [1, 4] [2] example_docs (init (Some [1 \<mapsto> [2 \<mapsto> 1 / 2], 2 \<mapsto> [1 \<mapsto> 1 / 2]]))))) 1 2 =
     Some (1 / 2) \<and>
   cached (calculated_distances (init None :: nat calculator)) 1 2 = None \<and>
   document_distance example_library (get_document_text example_docs 1)
     (get_document_text example_docs 2) = Some 1 \<and>
   cached (calculated_distances (snd (pairwise_step (document_distance example_library)
     example_docs (1, 2) ([], init None)))) 1 2 = Some 1 \<and>
   symmetric_cache (calculated_distances (init None :: nat calculator)) \<and>
   symmetric_engine (document_distance example_library) \<and>
   contribution (document_distance example_library) [1, 4] [2] example_docs (init None) =
     (Inr (Some 1), \<lparr>calculated_distances = [1 \<mapsto> [2 \<mapsto> 1], 2 \<mapsto> [1 \<mapsto> 1]],
        engine_calls = [(''cat'', ''dog''), ('''', ''dog'')]\<rparr>) \<and>
   contribution (document_distance example_library) [1, 4] [2] example_docs
     (snd (contribution (document_distance example_library) [1, 4] [2] example_docs (init None))) =
     (Inr (Some 1), \<lparr>calculated_distances = [1 \<mapsto> [2 \<mapsto> 1], 2 \<mapsto> [1 \<mapsto> 1]],
        engine_calls = [(''cat'', ''dog''), ('''', ''dog''), ('''', ''dog'')]\<rparr>)"
proof -
  have ne: "(1::nat) \<noteq> 2" by simp
  have sym: "symmetric_cache (calculated_distances
      (init (Some [1 \<mapsto> [2 \<mapsto> 1 / 2], (2::nat) \<mapsto> [(1::nat) \<mapsto> 1 / 2]])))"
    by (simp add: init_def symmetric_cache_one_pair)
  have sym0: "symmetric_cache (calculated_distances (init None :: nat calculator))"
    by (simp add: init_def symmetric_cache_empty)
  have eng: "symmetric_engine (document_distance example_library)"
    by (rule symmetric_engine_document_distance)
  have first: "contribution (document_distance example_library) [1, 4] [2] example_docs
      (init None) =
     (Inr (Some 1), \<lparr>calculated_distances = [1 \<mapsto> [2 \<mapsto> 1], 2 \<mapsto> [1 \<mapsto> 1]],
        engine_calls = [(''cat'', ''dog''), ('''', ''dog'')]\<rparr>)"
    by (simp add: run_defs example_distances)
  have second: "contribution (document_distance example_library) [1, 4] [2] example_docs
     \<lparr>calculated_distances = [1 \<mapsto> [2 \<mapsto> 1], 2 \<mapsto> [1 \<mapsto> 1]],
        engine_calls = [(''cat'', ''dog''), ('''', ''dog'')]\<rparr> =
     (Inr (Some 1), \<lparr>calculated_distances = [1 \<mapsto> [2 \<mapsto> 1], 2 \<mapsto> [1 \<mapsto> 1]],
        engine_calls = [(''cat'', ''dog''), ('''', ''dog''), ('''', ''dog'')]\<rparr>)"
    by (simp add: run_defs example_distances)
  show ?thesis
    using ne sym sym0 eng first second
      cached_distance_reused [OF ne, of
        "init (Some [1 \<mapsto> [2 \<mapsto> 1 / 2], 2 \<mapsto> [1 \<mapsto> 1 / 2]])" "1 / 2"
        "document_distance example_library" example_docs "[]" 1 "[1, 4]" "[2]"]
      cached_distance_reused [OF ne, of "init None" "1 / 2"
        "document_distance example_library" example_docs "[]" 1 "[1, 4]" "[2]"]
    by (simp add: run_defs example_distances)
qed

subsection \<open>The cache invariant\<close>




subsection \<open>Unavailable distances are not cached\<close>

text \<open>
  C9. With \<^verbatim>\<open>DistCalculator.document_distance\<close> as the distance calculator, every
  entry of the cache after \<^verbatim>\<open>_pairwise_distances\<close> or \<^verbatim>\<open>contribution\<close> is an
  entry the cache had before the call or a number in \<open>[0, 1]\<close>. A pair that has no
  entry and whose distance is unavailable, in both orders of the two texts since
  \<^verbatim>\<open>_add_distance\<close> writes both orders of a pair, has no entry after the call
  either. In the loop, for a pair without entry whose distance is unavailable the
  distance calculator is called, nothing is appended and the cache is left as it is
  (\<^verbatim>\<open>_add_distance\<close> is not called), so that the same happens at the next
  occurrence of the pair, in this call or a later one.
\<close>

theorem unavailable_never_cached:
  "(cached (calculated_distances (snd (pairwise_distances (document_distance L) A B docs self)))
       a b = Some v \<longrightarrow>
      cached (calculated_distances self) a b = Some v \<or> (0 \<le> v \<and> v \<le> 1)) \<and>
   (cached (calculated_distances (snd (contribution (document_distance L) A B docs self)))
       a b = Some v \<longrightarrow>
      cached (calculated_distances self) a b = Some v \<or> (0 \<le> v \<and> v \<le> 1)) \<and>
   (cached (calculated_distances self) a b = None \<and>
    document_distance L (get_document_text docs a) (get_document_text docs b) = None \<and>
    document_distance L (get_document_text docs b) (get_document_text docs a) = None \<longrightarrow>
      cached (calculated_distances (snd (pairwise_distances (document_distance L) A B docs self)))
        a b = None \<and>
      cached (calculated_distances (snd (contribution (document_distance L) A B docs self)))
        a b = None) \<and>
   (a \<noteq> b \<and> cached (calculated_distances self) a b = None \<and>
    dc (get_document_text docs a) (get_document_text docs b) = None \<longrightarrow>
      pairwise_step dc docs (a, b) (distances, self) =
        (distances, self\<lparr>engine_calls := engine_calls self @
           [(get_document_text docs a, get_document_text docs b)]\<rparr>))"
proof (intro conjI impI)
  assume "cached (calculated_distances (snd (pairwise_distances (document_distance L) A B docs self)))
       a b = Some v"
  from provenance_pairwise_distances [OF this]
  show "cached (calculated_distances self) a b = Some v \<or> (0 \<le> v \<and> v \<le> 1)"
    using document_distance_guard by blast
next
  assume "cached (calculated_distances (snd (contribution (document_distance L) A B docs self)))
       a b = Some v"
  from provenance_contribution [OF this]
  show "cached (calculated_distances self) a b = Some v \<or> (0 \<le> v \<and> v \<le> 1)"
    using document_distance_guard by blast
next
  assume h: "cached (calculated_distances self) a b = None \<and>
    document_distance L (get_document_text docs a) (get_document_text docs b) = None \<and>
    document_distance L (get_document_text docs b) (get_document_text docs a) = None"
  show "cached (calculated_distances (snd (pairwise_distances (document_distance L) A B docs self)))
        a b = None"
  proof (rule ccontr)
    assume "\<not> ?thesis"
    then obtain w where "cached (calculated_distances
        (snd (pairwise_distances (document_distance L) A B docs self))) a b = Some w"
      by auto
    from provenance_pairwise_distances [OF this] h show False by simp
  qed
  show "cached (calculated_distances (snd (contribution (document_distance L) A B docs self)))
        a b = None"
  proof (rule ccontr)
    assume "\<not> ?thesis"
    then obtain w where "cached (calculated_distances
        (snd (contribution (document_distance L) A B docs self))) a b = Some w"
      by auto
    from provenance_contribution [OF this] h show False by simp
  qed
next
  assume "a \<noteq> b \<and> cached (calculated_distances self) a b = None \<and>
    dc (get_document_text docs a) (get_document_text docs b) = None"
  then show "pairwise_step dc docs (a, b) (distances, self) =
        (distances, self\<lparr>engine_calls := engine_calls self @
           [(get_document_text docs a, get_document_text docs b)]\<rparr>)"
    using pairwise_step_unavailable [of a b self dc docs distances] by simp
qed

theorem unavailable_never_cached_witness:
  "cached (calculated_distances (snd (pairwise_distances (document_distance example_library)
      [1, 4] [2] example_docs (init None)))) 1 2 = Some 1 \<and> (0::real) \<le> 1 \<and> (1::real) \<le> 1 \<and>
   cached (calculated_distances (snd (contribution (document_distance example_library)
      [1, 4] [2] example_docs (init None)))) 1 2 = Some 1 \<and>
   cached (calculated_distances (init None :: nat calculator)) 4 2 = None \<and>
   document_distance example_library (get_document_text example_docs 4)
     (get_document_text example_docs 2) = None \<and>
   document_distance example_library (get_document_text example_docs 2)
     (get_document_text example_docs 4) = None \<and>
   cached (calculated_distances (snd (pairwise_distances (document_distance example_library)
      [1, 4] [2] example_docs (init None)))) 4 2 = None \<and>
   cached (calculated_distances (snd (contribution (document_distance example_library)
      [1, 4] [2] example_docs (init None)))) 4 2 = None \<and>
   pairwise_step (document_distance example_library) example_docs (4, 2) ([], init None) =
     ([], \<lparr>calculated_distances = Map.empty, engine_calls = [('''', ''dog'')]\<rparr>)"
  using unavailable_never_cached [of example_library "[1, 4]" "[2]" example_docs "init None"
      1 2 1 "document_distance example_library" "[]"]
    unavailable_never_cached [of example_library "[1, 4]" "[2]" example_docs "init None"
      4 2 1 "document_distance example_library" "[]"]
  by (simp add: run_defs example_distances)

subsection \<open>Weights of duplicate indices\<close>

text \<open>
  C10. The list \<^verbatim>\<open>_pairwise_distances\<close> returns has one entry for every occurrence
  of a pair in \<^verbatim>\<open>[[x, y] for x in indices_a for y in indices_b]\<close> that is not a
  self-pair and has a distance, and a pair \<open>(a, b)\<close> occurs there as often as the
  product of the number of occurrences of \<open>a\<close> in \<^verbatim>\<open>indices_a\<close> and of \<open>b\<close> in
  \<^verbatim>\<open>indices_b\<close>. So \<open>k\<close> copies of \<open>a\<close> and \<open>m\<close> copies of \<open>b\<close> give \<open>k * m\<close>
  entries, and the mean over \<open>k\<close> copies of \<open>a\<close> and one \<open>c\<close> weighs the distance of
  \<open>a\<close> with \<open>k\<close>. The description of the whole list is for a symmetric cache and a
  symmetric distance calculator, as \<^verbatim>\<open>document_distance\<close> is; the two special cases
  hold for every cache and every distance calculator.
\<close>

theorem distances_weighted_by_occurrence:
  "(symmetric_cache (calculated_distances self) \<and> symmetric_engine dc \<longrightarrow>
      fst (pairwise_distances dc A B docs self) =
        List.map_filter (resolve dc docs (calculated_distances self)) (index_pairs A B)) \<and>
   count_list (index_pairs A B) (a, b) = count_list A a * count_list B b \<and>
   (a \<noteq> b \<and> pair_distance dc docs (calculated_distances self) a b = Some u \<longrightarrow>
      fst (pairwise_distances dc (replicate k a) (replicate m b) docs self) =
        replicate (k * m) u) \<and>
   (a \<noteq> b \<and> c \<noteq> b \<and>
    pair_distance dc docs (calculated_distances self) a b = Some u \<and>
    pair_distance dc docs (calculated_distances self) c b = Some w \<longrightarrow>
      fst (mean_distance dc (replicate k a @ [c]) [b] docs self) =
        Some ((real k * u + w) / (real k + 1)))"
proof (intro conjI impI)
  assume "symmetric_cache (calculated_distances self) \<and> symmetric_engine dc"
  then show "fst (pairwise_distances dc A B docs self) =
       List.map_filter (resolve dc docs (calculated_distances self)) (index_pairs A B)"
    by (simp add: fst_pairwise_distances)
next
  show "count_list (index_pairs A B) (a, b) = count_list A a * count_list B b"
    by (rule count_list_index_pairs)
next
  assume h: "a \<noteq> b \<and> pair_distance dc docs (calculated_distances self) a b = Some u"
  then show "fst (pairwise_distances dc (replicate k a) (replicate m b) docs self) =
          replicate (k * m) u"
    using pairwise_loop_replicate [of a b dc docs self u "k * m" "[]"]
    by (simp add: pairwise_distances_def index_pairs_replicate)
next
  assume h: "a \<noteq> b \<and> c \<noteq> b \<and>
      pair_distance dc docs (calculated_distances self) a b = Some u \<and>
      pair_distance dc docs (calculated_distances self) c b = Some w"
  let ?acc = "pairwise_loop dc docs (replicate k (a, b)) ([], self)"
  have loop: "fst ?acc = replicate k u"
    and pd: "pair_distance dc docs (calculated_distances (snd ?acc)) a b = Some u"
    and other: "\<And>x y. (x, y) \<noteq> (a, b) \<and> (x, y) \<noteq> (b, a) \<Longrightarrow>
        cached (calculated_distances (snd ?acc)) x y = cached (calculated_distances self) x y"
    using h pairwise_loop_replicate [of a b dc docs self u k "[]"] by simp_all
  have "pair_distance dc docs (calculated_distances (snd ?acc)) c b = Some w"
  proof (cases "c = a")
    case True
    with h have "Some u = Some w" by metis
    then show ?thesis using pd True by simp
  next
    case False
    then have "cached (calculated_distances (snd ?acc)) c b = cached (calculated_distances self) c b"
      using h other [of c b] by simp
    then show ?thesis using h by (simp add: pair_distance_def)
  qed
  then have res: "resolve dc docs (calculated_distances (snd ?acc)) (c, b) = Some w"
    using h by (simp add: resolve_def)
  have "fst (pairwise_distances dc (replicate k a @ [c]) [b] docs self) =
        fst (pairwise_step dc docs (c, b) (fst ?acc, snd ?acc))"
    by (simp add: pairwise_distances_def index_pairs_single pairwise_loop_append)
  also have "\<dots> = replicate k u @ [w]"
    by (simp add: fst_pairwise_step res loop)
  finally show "fst (mean_distance dc (replicate k a @ [c]) [b] docs self) =
          Some ((real k * u + w) / (real k + 1))"
    by (simp add: fst_mean_distance sum_list_replicate_real add.commute)
qed

theorem distances_weighted_by_occurrence_witness:
  "symmetric_cache (calculated_distances (init None :: nat calculator)) \<and>
   symmetric_engine (document_distance example_library) \<and>
   pair_distance (document_distance example_library) example_docs
     (calculated_distances (init None)) 1 3 = Some 0 \<and>
   pair_distance (document_distance example_library) example_docs
     (calculated_distances (init None)) 2 3 = Some 1 \<and>
   fst (pairwise_distances (document_distance example_library) [1, 1] [3, 3, 3] example_docs
     (init None)) = [0, 0, 0, 0, 0, 0] \<and>
   fst (pairwise_distances (document_distance example_library) [1, 1, 2] [3] example_docs
     (init None)) = [0, 0, 1] \<and>
   fst (mean_distance (document_distance example_library) [1, 1, 2] [3] example_docs
     (init None)) = Some (1 / 3) \<and>
   fst (mean_distance (document_distance example_library) [1, 2] [3] example_docs
     (init None)) = Some (1 / 2)"
proof -
  have sym: "symmetric_cache (calculated_distances (init None :: nat calculator))"
    by (simp add: init_def symmetric_cache_empty)
  have eng: "symmetric_engine (document_distance example_library)"
    by (rule symmetric_engine_document_distance)
  have d13: "pair_distance (document_distance example_library) example_docs
     (calculated_distances (init None)) 1 3 = Some 0"
    by (simp add: pair_distance_def run_defs example_distances)
  have d23: "pair_distance (document_distance example_library) example_docs
     (calculated_distances (init None)) 2 3 = Some 1"
    by (simp add: pair_distance_def run_defs example_distances)
  note t = distances_weighted_by_occurrence [where self = "init None"
      and dc = "document_distance example_library" and docs = example_docs
      and a = 1 and b = 3 and c = 2 and u = 0 and w = 1]
  have r: "replicate (Suc (Suc 0)) (1::nat) = [1, 1]" "replicate (Suc 0) (1::nat) = [1]"
    "replicate (Suc (Suc (Suc 0))) (3::nat) = [3, 3, 3]"
    by simp_all
  show ?thesis
    using sym eng d13 d23
      t [where A = "[1, 1, 2]" and B = "[3]" and k = "Suc (Suc 0)" and m = "Suc (Suc (Suc 0))"]
      t [where A = "[1, 2]" and B = "[3]" and k = "Suc 0" and m = "Suc 0"]
    by (simp add: r resolve_def index_pairs_def)
qed

end
